theory Spec2Isabelle
  imports Complex_Main "HOL-Library.Word"
begin

unbundle bit_operations_syntax

section \<open>JavaScript numbers\<close>

text \<open>
  The source computes with JavaScript numbers.  Finite numbers are idealised as reals
  (no rounding, no overflow); the three non-finite values are kept apart, because the
  source tests for them (\<open>isFinite\<close>) and produces them (\<open>Infinity\<close>, \<open>-Infinity\<close>,
  and \<open>NaN\<close> from the square root of a negative number).
\<close>

datatype jsnum = Fin real | PosInf | NegInf | NaN

fun isFinite :: "jsnum \<Rightarrow> bool" where
  "isFinite (Fin x) = True"
| "isFinite PosInf = False"
| "isFinite NegInf = False"
| "isFinite NaN = False"

text \<open>\<open>a < b\<close> on JavaScript numbers; every comparison with \<open>NaN\<close> is false.\<close>

fun js_less :: "jsnum \<Rightarrow> jsnum \<Rightarrow> bool" where
  "js_less NaN b = False"
| "js_less a NaN = False"
| "js_less (Fin a) (Fin b) = (a < b)"
| "js_less (Fin a) PosInf = True"
| "js_less (Fin a) NegInf = False"
| "js_less PosInf b = False"
| "js_less NegInf NegInf = False"
| "js_less NegInf b = True"

text \<open>\<open>a - b\<close> on JavaScript numbers.\<close>

fun js_sub :: "jsnum \<Rightarrow> jsnum \<Rightarrow> jsnum" where
  "js_sub NaN b = NaN"
| "js_sub a NaN = NaN"
| "js_sub (Fin a) (Fin b) = Fin (a - b)"
| "js_sub (Fin a) PosInf = NegInf"
| "js_sub (Fin a) NegInf = PosInf"
| "js_sub PosInf PosInf = NaN"
| "js_sub PosInf b = PosInf"
| "js_sub NegInf NegInf = NaN"
| "js_sub NegInf b = NegInf"

text \<open>The finite value of a number (0 for a non-finite one); used to state results.\<close>

fun the_fin :: "jsnum \<Rightarrow> real" where
  "the_fin (Fin x) = x"
| "the_fin PosInf = 0"
| "the_fin NegInf = 0"
| "the_fin NaN = 0"

section \<open>constants.mjs\<close>

definition NUM_SQUARES :: nat where "NUM_SQUARES = 25"
definition AUTOMATION_TRIGGER_SECONDS :: int where "AUTOMATION_TRIGGER_SECONDS = 8"
definition MS_PER_SLOT :: real where "MS_PER_SLOT = 400"
definition SOL_PER_LAMPORT :: real where "SOL_PER_LAMPORT = 1 / 1000000000"
definition REF_MULT :: real where "REF_MULT = 9 / 10"
definition ADMIN_FEE :: real where "ADMIN_FEE = 1 / 100"
definition PROTOCOL_CUT :: real where "PROTOCOL_CUT = 10 / 100"
definition P_WIN :: real where "P_WIN = 1 / 25"
definition HIT_PROB :: real where "HIT_PROB = 1 / 625"
definition ADMIN_COST_FACTOR :: real where
  "ADMIN_COST_FACTOR = ADMIN_FEE / (1 - ADMIN_FEE)"
definition C :: real where
  "C = 24 + ADMIN_COST_FACTOR / P_WIN"

text \<open>\<open>APP_MODES\<close>: the mode is a string in the source.\<close>

definition IDLE :: string where "IDLE = ''idle''"
definition ONE_X_EV :: string where "ONE_X_EV = ''1x EV''"
definition THREE_X_EV :: string where "THREE_X_EV = ''3x EV''"
definition FIVE_X_EV :: string where "FIVE_X_EV = ''5x EV''"
definition TWENTY_FIVE_X_EV :: string where "TWENTY_FIVE_X_EV = ''25x EV''"

definition APP_MODES :: "string list" where
  "APP_MODES = [IDLE, ONE_X_EV, THREE_X_EV, FIVE_X_EV, TWENTY_FIVE_X_EV]"

section \<open>ev.mjs: the valuation model\<close>

record ev_result =
  y :: jsnum
  EV :: jsnum

text \<open>
  The body of the \<open>for\<close> loop of \<open>computeEVStarForBlock\<close>, run \<open>n\<close> more times on the
  loop variables \<open>(yStar, V)\<close>: \<open>V\<close> is recomputed from the current \<open>yStar\<close>, the loop
  breaks when it is not positive, and only then \<open>yStar\<close> is refined from the new \<open>V\<close>.
\<close>

fun refine :: "nat \<Rightarrow> real \<Rightarrow> real \<Rightarrow> real \<Rightarrow> real \<times> real \<Rightarrow> real \<times> real" where
  "refine 0 Ov Tv ore (yStar, V) = (yStar, V)"
| "refine (Suc n) Ov Tv ore (yStar, V) =
     (let V' = (1 - PROTOCOL_CUT) * (Tv - Ov - yStar) + ore in
      if V' \<le> 0 then (yStar, V')
      else refine n Ov Tv ore (max 0 (sqrt ((V' * Ov) / C) - Ov), V'))"

text \<open>
  \<open>computeEVStarForBlock(O, T, oreValueInSOL)\<close>.  \<open>O\<close> and \<open>T\<close> are guarded by
  \<open>isFinite\<close> in the source; \<open>oreValueInSOL\<close> is a finite number.  When it is negative
  (and the guards pass) the initial \<open>Math.sqrt\<close> is \<open>NaN\<close>, every comparison of the loop
  and of the final test is false, and both results are \<open>NaN\<close>.
\<close>

definition computeEVStarForBlock :: "jsnum \<Rightarrow> jsnum \<Rightarrow> real \<Rightarrow> ev_result" where
  "computeEVStarForBlock Oj Tj oreValueInSOL =
     (case Oj of
        Fin Ov \<Rightarrow>
          if Ov \<le> 0 then \<lparr>y = Fin 0, EV = NegInf\<rparr>
          else (case Tj of
            Fin Tv \<Rightarrow>
              if Tv \<le> 0 then \<lparr>y = Fin 0, EV = NegInf\<rparr>
              else
                let V_initial = (1 - PROTOCOL_CUT) * (Tv - Ov) + oreValueInSOL in
                if V_initial \<le> 0 then \<lparr>y = Fin 0, EV = NegInf\<rparr>
                else if (oreValueInSOL * Ov) / C < 0 then \<lparr>y = NaN, EV = NaN\<rparr>
                else
                  let (yStar, V) =
                        refine 3 Ov Tv oreValueInSOL (sqrt ((oreValueInSOL * Ov) / C), V_initial) in
                  if yStar \<le> 0 then \<lparr>y = Fin 0, EV = Fin 0\<rparr>
                  else
                    let f = yStar / (Ov + yStar);
                        adminCost = ADMIN_COST_FACTOR * yStar;
                        EV = P_WIN * (- 24 * yStar + V * f) - adminCost
                    in \<lparr>y = Fin yStar, EV = Fin EV\<rparr>
          | _ \<Rightarrow> \<lparr>y = Fin 0, EV = NegInf\<rparr>)
      | _ \<Rightarrow> \<lparr>y = Fin 0, EV = NegInf\<rparr>)"

text \<open>
  The core of \<open>getOreValueInSOL\<close>, on the price ratio and on \<open>M\<close>, the reward pool in
  whole reward units.  \<open>M != null && isFinite(M)\<close> is \<open>isFinite M\<close> for a number.
\<close>

definition oreValueOf :: "real \<Rightarrow> jsnum \<Rightarrow> real" where
  "oreValueOf priceOreSol M =
     (let expectedMotherlodeOREThisRound =
            (case M of Fin m \<Rightarrow> m * HIT_PROB | _ \<Rightarrow> (2 / 10) * HIT_PROB)
      in priceOreSol * REF_MULT * (1 + expectedMotherlodeOREThisRound))"

text \<open>
  The formula of the specification for the external reward valuation, on a pool size and
  a price ratio.
\<close>

definition spec_reward_valuation :: "real \<Rightarrow> real \<Rightarrow> real" where
  "spec_reward_valuation rewardPoolSize externalPriceRatio =
     rewardPoolSize * HIT_PROB * REF_MULT * externalPriceRatio"

text \<open>
  The final expected value as the specification words it: the pool value is recomputed
  with the returned \<open>y*\<close> subtracted.
\<close>

definition spec_EV :: "real \<Rightarrow> real \<Rightarrow> real \<Rightarrow> real \<Rightarrow> real" where
  "spec_EV Ov Tv V0 ystar =
     (let f = ystar / (Ov + ystar);
          V_final = (1 - PROTOCOL_CUT) * (Tv - Ov - ystar) + V0
      in P_WIN * (- (25 - 1) * ystar + V_final * f) - ADMIN_COST_FACTOR * ystar)"

section \<open>Accounts and application state\<close>

text \<open>
  The decoded accounts (\<open>BOARD_LAYOUT\<close>, \<open>ROUND_LAYOUT\<close>, \<open>MINER_LAYOUT\<close>), with the fields
  the modelled functions read; \<open>u64\<close> fields are 64-bit words, \<open>seq(u64(), 25)\<close> fields
  are lists and the \<open>blob(32)\<close> is a list of bytes.
\<close>

record board =
  round_id :: "64 word"
  start_slot :: "64 word"
  end_slot :: "64 word"

record round =
  deployed :: "64 word list"
  slot_hash :: "8 word list"
  count :: "64 word list"
  expires_at :: "64 word"
  motherlode :: "64 word"
  total_deployed :: "64 word"

record miner =
  checkpoint_id :: "64 word"
  miner_round_id :: "64 word"

text \<open>
  \<open>appState\<close> of state.mjs.  \<open>currentRoundId\<close> is a \<open>BN\<close> (an unbounded integer, initially
  \<open>-1\<close>); \<open>lastWinner\<close> holds the winning square, \<open>None\<close> standing for the initial \<open>'--'\<close>.
\<close>

record app_state =
  appMode :: string
  isSpeculating :: bool
  customDeployAmount :: real
  priceOreSol :: real
  currentRoundId :: int
  currentBoardData :: "board option"
  currentRoundData :: "round option"
  isTransitioningRound :: bool
  checkpointHasRunThisRound :: bool
  automationHasRunThisRound :: bool
  winnerAnnounced :: bool
  lastWinner :: "nat option"
  roundSubscriptionId :: "nat option"

definition initial_state :: app_state where
  "initial_state =
     \<lparr>appMode = IDLE, isSpeculating = False, customDeployAmount = 1 / 10000,
      priceOreSol = 0, currentRoundId = - 1, currentBoardData = None,
      currentRoundData = None, isTransitioningRound = False,
      checkpointHasRunThisRound = False, automationHasRunThisRound = False,
      winnerAnnounced = False, lastWinner = None, roundSubscriptionId = None\<rparr>"

definition setAppMode :: "string \<Rightarrow> app_state \<Rightarrow> app_state \<times> bool" where
  "setAppMode mode s =
     (if mode \<in> set APP_MODES then (s\<lparr>appMode := mode\<rparr>, True) else (s, False))"

definition toggleSpeculate :: "app_state \<Rightarrow> app_state \<times> bool" where
  "toggleSpeculate s = (s\<lparr>isSpeculating := \<not> isSpeculating s\<rparr>, \<not> isSpeculating s)"

datatype error = TypeError | RangeError

text \<open>\<open>getOreValueInSOL(roundData)\<close>; the price ratio is read from the state.\<close>

definition getOreValueInSOL :: "app_state \<Rightarrow> round \<Rightarrow> real" where
  "getOreValueInSOL s roundData =
     oreValueOf (priceOreSol s) (Fin (real (unat (motherlode roundData)) * (1 / 10 ^ 11)))"

section \<open>detection.mjs: the board analyzer\<close>

record sq =
  sq_id :: nat
  sol :: real

record ratio_sq = sq +
  sq_count :: real
  ratio :: jsnum

record ev_sq = sq +
  ev :: jsnum

record full_sq = ratio_sq +
  full_ev :: jsnum

record analysis =
  bestEV :: "ev_sq option"
  bestRatio :: "ratio_sq option"
  byEV :: "ev_sq list"
  byRatio :: "ratio_sq list"
  fullAnalysis :: "full_sq list"

text \<open>
  \<open>Array.prototype.sort(cmp)\<close>, modelled by what the language guarantees of it: a
  stable sort.  An element is moved behind another one only when the comparator is
  positive on the pair (a \<open>NaN\<close> result counts as 0).
\<close>

fun js_insert :: "('a \<Rightarrow> 'a \<Rightarrow> jsnum) \<Rightarrow> 'a \<Rightarrow> 'a list \<Rightarrow> 'a list" where
  "js_insert cmp x [] = [x]"
| "js_insert cmp x (z # zs) =
     (if js_less (Fin 0) (cmp x z) then z # js_insert cmp x zs else x # z # zs)"

definition js_sort :: "('a \<Rightarrow> 'a \<Rightarrow> jsnum) \<Rightarrow> 'a list \<Rightarrow> 'a list" where
  "js_sort cmp xs = foldr (js_insert cmp) xs []"

text \<open>One pass of the loop over the squares: the metrics of square \<open>i\<close> (0-based).\<close>

definition square_sol :: "round \<Rightarrow> nat \<Rightarrow> real" where
  "square_sol roundData i = real (unat (deployed roundData ! i)) * SOL_PER_LAMPORT"

definition square_ratio :: "round \<Rightarrow> nat \<Rightarrow> ratio_sq" where
  "square_ratio roundData i =
     (let countVal = real (unat (count roundData ! i));
          sol = square_sol roundData i;
          ratio = (if countVal > 0 then Fin (sol / countVal) else PosInf)
      in \<lparr>sq_id = i + 1, sol = sol, sq_count = countVal, ratio = ratio\<rparr>)"

definition square_ev :: "real \<Rightarrow> real \<Rightarrow> round \<Rightarrow> nat \<Rightarrow> ev_sq" where
  "square_ev Tv oreValueInSOL roundData i =
     (let sol = square_sol roundData i;
          r = computeEVStarForBlock (Fin sol) (Fin Tv) oreValueInSOL;
          evValue = (if isFinite (EV r) then EV r else NegInf)
      in \<lparr>sq_id = i + 1, sol = sol, ev = evValue\<rparr>)"

definition square_full :: "real \<Rightarrow> real \<Rightarrow> round \<Rightarrow> nat \<Rightarrow> full_sq" where
  "square_full Tv oreValueInSOL roundData i =
     \<lparr>sq_id = i + 1, sol = square_sol roundData i,
      sq_count = sq_count (square_ratio roundData i), ratio = ratio (square_ratio roundData i),
      full_ev = ev (square_ev Tv oreValueInSOL roundData i)\<rparr>"

text \<open>
  \<open>analyzeBoardState(roundData)\<close>.  A missing entry of \<open>count\<close> or \<open>deployed\<close> makes
  \<open>.toString()\<close> raise a \<open>TypeError\<close>.
\<close>

definition analyzeBoardState :: "app_state \<Rightarrow> round option \<Rightarrow> error + analysis" where
  "analyzeBoardState s rdo =
     (case rdo of
        None \<Rightarrow> Inr \<lparr>bestEV = None, bestRatio = None, byEV = [], byRatio = [], fullAnalysis = []\<rparr>
      | Some roundData \<Rightarrow>
          if length (count roundData) < NUM_SQUARES \<or> length (deployed roundData) < NUM_SQUARES
          then Inl TypeError
          else
            let Tv = real (unat (total_deployed roundData)) * SOL_PER_LAMPORT;
                oreValueInSOL = getOreValueInSOL s roundData;
                ratios = map (square_ratio roundData) [0..<NUM_SQUARES];
                evs = map (square_ev Tv oreValueInSOL roundData) [0..<NUM_SQUARES];
                fullAnalysis = map (square_full Tv oreValueInSOL roundData) [0..<NUM_SQUARES];
                sortedByEV = js_sort (\<lambda>a b. js_sub (ev b) (ev a))
                               (filter (\<lambda>e. js_less (Fin 0) (ev e)) evs);
                sortedByRatio = js_sort (\<lambda>a b. js_sub (ratio a) (ratio b))
                               (filter (\<lambda>r. js_less (ratio r) PosInf \<and> js_less (Fin 0) (ratio r)) ratios)
            in Inr \<lparr>bestEV = (case sortedByEV of [] \<Rightarrow> None | e # _ \<Rightarrow> Some e),
                    bestRatio = (case sortedByRatio of [] \<Rightarrow> None | r # _ \<Rightarrow> Some r),
                    byEV = sortedByEV, byRatio = sortedByRatio,
                    fullAnalysis = fullAnalysis\<rparr>)"



section \<open>Effects\<close>

text \<open>
  What a handler does besides updating the state is recorded as a list of effects, in
  the order of the source: log lines (by kind, with their arguments) and calls to
  collaborators.
\<close>

datatype log_msg =
    MsgTrigger string int
  | MsgNoPositiveEV
  | MsgNoValidTargets string
  | MsgDeploying real real
  | MsgAutoTarget nat jsnum
  | MsgSkipSpeculate
  | MsgKeypairNotLoaded
  | MsgKeypairHint
  | MsgDeployNoSigner
  | MsgDeployNoTargets
  | MsgRoundAccountNotFound int
  | MsgRoundNotInitialized int
  | MsgStateDirty int
  | MsgSendingDeploy nat
  | MsgFetchingFinal int
  | MsgNoWinnerHash int
  | MsgErrorFinal
  | MsgErrorParsingRound
  | MsgClearingOldRound
  | MsgNoUnsubNeeded
  | MsgCurrentRound int
  | MsgErrorBoardUpdate

datatype instruction =
    SetComputeUnitLimit nat
  | SetComputeUnitPrice nat
  | Checkpoint int
  | Deploy int "32 word" int

datatype effect =
    Log log_msg
  | AnalyzeBoard "round option"
  | SendDeployTx "ev_sq list"
  | SendAndConfirmTransaction "instruction list"
  | UpdateTUI round
  | PlayNotificationSound int nat
  | RemoveAccountChangeListener nat
  | OnAccountChange int

fun is_analyze :: "effect \<Rightarrow> bool" where
  "is_analyze (AnalyzeBoard r) = True"
| "is_analyze e = False"

fun is_deploy_request :: "effect \<Rightarrow> bool" where
  "is_deploy_request (SendDeployTx ts) = True"
| "is_deploy_request e = False"

fun is_send :: "effect \<Rightarrow> bool" where
  "is_send (SendAndConfirmTransaction tx) = True"
| "is_send e = False"

fun is_finalize :: "effect \<Rightarrow> bool" where
  "is_finalize (Log (MsgFetchingFinal r)) = True"
| "is_finalize e = False"

fun is_checkpoint :: "instruction \<Rightarrow> bool" where
  "is_checkpoint (Checkpoint r) = True"
| "is_checkpoint i = False"

section \<open>automation.mjs: the automation trigger\<close>

definition resetRoundFlags :: "app_state \<Rightarrow> app_state" where
  "resetRoundFlags s =
     s\<lparr>automationHasRunThisRound := False, checkpointHasRunThisRound := False\<rparr>"

text \<open>Step 4 of \<open>runAutomationCheck\<close>: the \<open>switch\<close> on the mode.\<close>

definition selectTargets :: "string \<Rightarrow> analysis \<Rightarrow> ev_sq list" where
  "selectTargets mode a =
     (if mode = ONE_X_EV then (case bestEV a of Some b \<Rightarrow> [b] | None \<Rightarrow> [])
      else if mode = THREE_X_EV then take 3 (byEV a)
      else if mode = FIVE_X_EV then take 5 (byEV a)
      else [])"

text \<open>
  \<open>runAutomationCheck(roundData, secondsRemaining, connection)\<close>, on the state and on what
  \<open>getSigner()\<close> returns.  \<open>secondsRemaining\<close> is an integer: its caller computes it with
  \<open>Math.floor\<close>.  The result is the new state, the effects and the exception that left
  the function, if any.
\<close>

definition runAutomationCheck ::
  "app_state \<Rightarrow> string option \<Rightarrow> round option \<Rightarrow> int \<Rightarrow> app_state \<times> effect list \<times> error option" where
  "runAutomationCheck s signer roundData secondsRemaining =
     (if appMode s = IDLE then (s, [], None)
      else if secondsRemaining > AUTOMATION_TRIGGER_SECONDS \<or> secondsRemaining \<le> 0
        then (s, [], None)
      else if automationHasRunThisRound s then (s, [], None)
      else
        let s1 = s\<lparr>automationHasRunThisRound := True\<rparr>;
            e1 = [Log (MsgTrigger (appMode s) secondsRemaining), AnalyzeBoard roundData]
        in (case analyzeBoardState s1 roundData of
             Inl err \<Rightarrow> (s1, e1, Some err)
           | Inr a \<Rightarrow>
               if bestEV a = None then (s1, e1 @ [Log MsgNoPositiveEV], None)
               else
                 let targets = selectTargets (appMode s) a in
                 if length targets = 0
                 then (s1, e1 @ [Log (MsgNoValidTargets (appMode s))], None)
                 else
                   let e2 = e1 @ [Log (MsgDeploying (customDeployAmount s)
                                         (customDeployAmount s * real (length targets)))]
                               @ map (\<lambda>t. Log (MsgAutoTarget (sq_id t) (ev t))) targets
                   in if isSpeculating s then (s1, e2 @ [Log MsgSkipSpeculate], None)
                      else (case signer of
                              Some k \<Rightarrow> (s1, e2 @ [SendDeployTx targets], None)
                            | None \<Rightarrow> (s1, e2 @ [Log MsgKeypairNotLoaded, Log MsgKeypairHint], None))))"

text \<open>
  What can happen within one round, between two resets of the round flags: a countdown
  tick that reaches \<open>runAutomationCheck\<close>, and the user's keys.
\<close>

datatype round_event =
    Tick "string option" "round option" int
  | SetMode string
  | ToggleSpeculate

fun round_step :: "app_state \<Rightarrow> round_event \<Rightarrow> app_state \<times> effect list" where
  "round_step s (Tick signer roundData secondsRemaining) =
     (case runAutomationCheck s signer roundData secondsRemaining of (s', es, _) \<Rightarrow> (s', es))"
| "round_step s (SetMode mode) = (fst (setAppMode mode s), [])"
| "round_step s ToggleSpeculate = (fst (toggleSpeculate s), [])"

fun run_round :: "app_state \<Rightarrow> round_event list \<Rightarrow> app_state \<times> effect list" where
  "run_round s [] = (s, [])"
| "run_round s (e # es) =
     (case round_step s e of (s1, out1) \<Rightarrow>
        (case run_round s1 es of (s2, out2) \<Rightarrow> (s2, out1 @ out2)))"

section \<open>solana.mjs: outcome derivation\<close>

definition isSlotHashPopulated :: "8 word list \<Rightarrow> bool" where
  "isSlotHashPopulated slotHash = list_ex (\<lambda>byte. byte \<noteq> 0) slotHash"

text \<open>The little-endian value of a list of bytes.\<close>

fun le_nat :: "8 word list \<Rightarrow> nat" where
  "le_nat [] = 0"
| "le_nat (b # bs) = unat b + 256 * le_nat bs"

text \<open>
  \<open>buf.readBigUInt64LE(offset)\<close>: a \<open>RangeError\<close> unless eight bytes are there.
\<close>

definition readBigUInt64LE :: "8 word list \<Rightarrow> nat \<Rightarrow> error + 64 word" where
  "readBigUInt64LE buf offset =
     (if offset + 8 \<le> length buf then Inr (of_nat (le_nat (take 8 (drop offset buf))))
      else Inl RangeError)"

definition calculateRng :: "8 word list \<Rightarrow> error + 64 word" where
  "calculateRng slotHash =
     (case readBigUInt64LE slotHash 0 of Inl e \<Rightarrow> Inl e | Inr r1 \<Rightarrow>
       (case readBigUInt64LE slotHash 8 of Inl e \<Rightarrow> Inl e | Inr r2 \<Rightarrow>
         (case readBigUInt64LE slotHash 16 of Inl e \<Rightarrow> Inl e | Inr r3 \<Rightarrow>
           (case readBigUInt64LE slotHash 24 of Inl e \<Rightarrow> Inl e | Inr r4 \<Rightarrow>
              Inr (r1 XOR r2 XOR r3 XOR r4)))))"

definition getWinningSquare :: "64 word \<Rightarrow> nat" where
  "getWinningSquare rng = unat rng mod 25"

section \<open>game.mjs: the round state tracker\<close>

datatype 'a fetched = RpcError | NoAccount | Account 'a

text \<open>
  What the network answers during one board notification: the account fetched by
  \<open>finalizeOldRound\<close>, the round account fetched afterwards (each decoded, \<open>None\<close> when the
  decoder raises), whether removing the old listener succeeds, and the new subscription id.
\<close>

record rpc_env =
  finalFetch :: "round option fetched"
  roundFetch :: "round option fetched"
  unsubscribeOk :: bool
  newSubscriptionId :: nat

definition displayWinner :: "app_state \<Rightarrow> round \<Rightarrow> int \<Rightarrow> error + app_state \<times> effect list" where
  "displayWinner s roundData roundId =
     (if \<not> winnerAnnounced s then
        (case calculateRng (slot_hash roundData) of
           Inl e \<Rightarrow> Inl e
         | Inr rng \<Rightarrow>
             let winner = getWinningSquare rng + 1
             in Inr (s\<lparr>lastWinner := Some winner, winnerAnnounced := True\<rparr>,
                     [PlayNotificationSound roundId winner]))
      else Inr (s, []))"

definition processRoundUpdate :: "app_state \<Rightarrow> round option \<Rightarrow> app_state \<times> effect list" where
  "processRoundUpdate s parsed =
     (case parsed of
        None \<Rightarrow> (s, [Log MsgErrorParsingRound])
      | Some roundData \<Rightarrow> (s\<lparr>currentRoundData := Some roundData\<rparr>, [UpdateTUI roundData]))"

definition finalizeOldRound ::
  "app_state \<Rightarrow> int \<Rightarrow> round option fetched \<Rightarrow> app_state \<times> effect list" where
  "finalizeOldRound s roundId fetch =
     (let e0 = [Log (MsgFetchingFinal roundId)] in
      case fetch of
        RpcError \<Rightarrow> (s, e0 @ [Log MsgErrorFinal])
      | NoAccount \<Rightarrow> (s, e0)
      | Account None \<Rightarrow> (s, e0 @ [Log MsgErrorFinal])
      | Account (Some oldRoundData) \<Rightarrow>
          let s1 = s\<lparr>currentRoundData := Some oldRoundData\<rparr>;
              e1 = e0 @ [UpdateTUI oldRoundData]
          in if isSlotHashPopulated (slot_hash oldRoundData) then
               (case displayWinner s1 oldRoundData roundId of
                  Inl err \<Rightarrow> (s1, e1 @ [Log MsgErrorFinal])
                | Inr (s2, e2) \<Rightarrow> (s2, e1 @ e2))
             else (s1, e1 @ [Log (MsgNoWinnerHash roundId)]))"

text \<open>
  \<open>processBoardUpdate(accountInfo)\<close>, on the decoded board (\<open>None\<close> when \<open>parseBoard\<close>
  raises).  An exception anywhere in the body reaches the \<open>catch\<close>, which logs and clears
  \<open>isTransitioningRound\<close>.
\<close>

definition processBoardUpdate ::
  "app_state \<Rightarrow> board option \<Rightarrow> rpc_env \<Rightarrow> app_state \<times> effect list" where
  "processBoardUpdate s parsed env =
     (case parsed of
        None \<Rightarrow> (s\<lparr>isTransitioningRound := False\<rparr>, [Log MsgErrorBoardUpdate])
      | Some boardData \<Rightarrow>
          let s1 = s\<lparr>currentBoardData := Some boardData\<rparr>;
              newRoundId = uint (round_id boardData);
              cur = currentRoundId s1;
              sub = roundSubscriptionId s1;
              (s2, e2) =
                (if newRoundId > cur \<and> cur > - 1 then
                   (case finalizeOldRound (s1\<lparr>isTransitioningRound := True\<rparr>) cur (finalFetch env)
                    of (sf, ef) \<Rightarrow> (sf\<lparr>isTransitioningRound := False\<rparr>, ef))
                 else (s1, []))
          in if newRoundId = cur then
               (case roundFetch env of
                  RpcError \<Rightarrow> (s2\<lparr>isTransitioningRound := False\<rparr>, e2 @ [Log MsgErrorBoardUpdate])
                | NoAccount \<Rightarrow> (s2, e2)
                | Account p \<Rightarrow> (case processRoundUpdate s2 p of (s3, e3) \<Rightarrow> (s3, e2 @ e3)))
             else
               let s3 = resetRoundFlags s2;
                   s4 = s3\<lparr>currentRoundId := newRoundId, currentRoundData := None,
                           winnerAnnounced := False\<rparr>;
                   e5a = (case sub of
                            None \<Rightarrow> []
                          | Some n \<Rightarrow>
                              if n = 0 then []
                              else [RemoveAccountChangeListener n,
                                    Log (if unsubscribeOk env then MsgClearingOldRound
                                         else MsgNoUnsubNeeded)]);
                   e5b = [Log (MsgCurrentRound newRoundId), OnAccountChange newRoundId];
                   s5 = s4\<lparr>roundSubscriptionId := Some (newSubscriptionId env)\<rparr>
               in (case roundFetch env of
                     RpcError \<Rightarrow>
                       (s5\<lparr>isTransitioningRound := False\<rparr>,
                        e2 @ e5a @ e5b @ [Log MsgErrorBoardUpdate])
                   | NoAccount \<Rightarrow> (s5, e2 @ e5a @ e5b)
                   | Account p \<Rightarrow>
                       (case processRoundUpdate s5 p of (s6, e6) \<Rightarrow> (s6, e2 @ e5a @ e5b @ e6))))"

section \<open>transactions.mjs: the deployment sequencer\<close>

definition createSquaresMask :: "ev_sq list \<Rightarrow> 32 word" where
  "createSquaresMask targets =
     foldl (\<lambda>mask target.
              if 1 \<le> sq_id target \<and> sq_id target - 1 < 25
              then mask OR push_bit (sq_id target - 1) 1 else mask)
           0 targets"

text \<open>
  The two round markers \<open>sendDeployTx\<close> reads from the signer's miner account; both stay
  at their initial \<open>new BN(0)\<close> when the account does not exist.
\<close>

definition minerRoundId :: "miner option fetched \<Rightarrow> int" where
  "minerRoundId minerAccount =
     (case minerAccount of
        Account (Some minerData) \<Rightarrow> uint (miner_round_id minerData)
      | _ \<Rightarrow> 0)"

definition minerCheckpointId :: "miner option fetched \<Rightarrow> int" where
  "minerCheckpointId minerAccount =
     (case minerAccount of
        Account (Some minerData) \<Rightarrow> uint (checkpoint_id minerData)
      | _ \<Rightarrow> 0)"

text \<open>
  \<open>sendDeployTx(targets, connection, signer)\<close> up to the submission, on the state and on
  the two accounts it fetches (the active round's and the signer's miner account, each
  decoded, \<open>None\<close> when the decoder raises).  An exception inside the \<open>try\<close> ends the
  function without a submission.  What follows the submission (the confirmation line,
  the balance refresh, the classification of a rejection) is not modelled.

  \<open>amountLamports\<close> is the integer that
  \<open>BigInt(Math.floor(customDeployAmount / SOL_PER_LAMPORT))\<close> yields.  The quotient is one
  of doubles and is rounded before the floor (for a \<open>customDeployAmount\<close> of 1 the source
  obtains 999999999, not 1000000000), so it is not the floor of the real quotient: the
  model takes the integer as a parameter.  \<open>writeBigUInt64LE\<close> raises unless it fits
  64 bits.
\<close>

definition sendDeployTx ::
  "ev_sq list \<Rightarrow> string option \<Rightarrow> app_state \<Rightarrow> int \<Rightarrow> round option fetched
     \<Rightarrow> miner option fetched \<Rightarrow> effect list" where
  "sendDeployTx targets signer s amountLamports newRoundAccount minerAccount =
     (case signer of
        None \<Rightarrow> [Log MsgDeployNoSigner]
      | Some k \<Rightarrow>
          if length targets = 0 then [Log MsgDeployNoTargets]
          else (case newRoundAccount of
            RpcError \<Rightarrow> []
          | NoAccount \<Rightarrow> [Log (MsgRoundAccountNotFound (currentRoundId s))]
          | Account None \<Rightarrow> [Log (MsgRoundNotInitialized (currentRoundId s))]
          | Account (Some roundData) \<Rightarrow>
              if minerAccount = RpcError \<or> minerAccount = Account None then []
              else
                let budget = [SetComputeUnitLimit 750000, SetComputeUnitPrice 100000];
                    isStateDirty = (minerRoundId minerAccount \<noteq> minerCheckpointId minerAccount);
                    canCheckpoint = (minerRoundId minerAccount < currentRoundId s);
                    checkpoint =
                      (if isStateDirty \<and> canCheckpoint
                       then [Checkpoint (minerRoundId minerAccount)] else []);
                    warning =
                      (if isStateDirty \<and> canCheckpoint then []
                       else if isStateDirty \<and> \<not> canCheckpoint
                         then [Log (MsgStateDirty (minerRoundId minerAccount))]
                       else []);
                    squaresMask = createSquaresMask targets
                in if amountLamports < 0 \<or> 2 ^ 64 \<le> amountLamports then warning
                   else warning @
                     [Log (MsgSendingDeploy (length targets)),
                      SendAndConfirmTransaction
                        (budget @ checkpoint @
                         [Deploy amountLamports squaresMask (currentRoundId s)])]))"

section \<open>Example inputs\<close>

text \<open>
  A valuation of a square holding 99 of 198 staked, with an external reward value of 2401:
  the iterate after the second refinement, the pool value computed from it in the third
  pass, and the iterate the third pass returns.
\<close>

definition c3_y2 :: real where "c3_y2 = sqrt ((24901 / 10 * 99) / C) - 99"
definition c3_V3 :: real where "c3_V3 = (1 - PROTOCOL_CUT) * (198 - 99 - c3_y2) + 2401"
definition c3_y3 :: real where "c3_y3 = sqrt ((c3_V3 * 99) / C) - 99"

text \<open>A state with a price ratio of 1 and a round whose reward pool is 625 reward units.\<close>

definition c7_state :: app_state where
  "c7_state = initial_state\<lparr>priceOreSol := 1\<rparr>"

definition c7_round :: round where
  "c7_round = \<lparr>deployed = replicate 25 0, slot_hash = replicate 32 0, count = replicate 25 0,
     expires_at = 0, motherlode = 62500000000000, total_deployed = 0\<rparr>"

text \<open>A state in which the trigger is armed: mode \<open>1x EV\<close>, nothing fired yet.\<close>

definition auto_state :: app_state where
  "auto_state = initial_state\<lparr>appMode := ONE_X_EV\<rparr>"

text \<open>
  A deployment of 1 SOL on square 7 in round 10, for which the source computes 999999999
  lamports, by a signer whose miner account was last active in round 9 and last synced in
  round 7; by one that is synced (both markers 9); and by one whose marker is the active
  round itself.
\<close>

definition c5_state :: app_state where
  "c5_state = initial_state\<lparr>appMode := ONE_X_EV, customDeployAmount := 1, currentRoundId := 10\<rparr>"

definition c5_targets :: "ev_sq list" where
  "c5_targets = [\<lparr>sq_id = 7, sol = 1, ev = Fin 1\<rparr>]"

definition c5_miner :: miner where
  "c5_miner = \<lparr>checkpoint_id = 7, miner_round_id = 9\<rparr>"

definition c5_miner_synced :: miner where
  "c5_miner_synced = \<lparr>checkpoint_id = 9, miner_round_id = 9\<rparr>"

definition c5_miner_current :: miner where
  "c5_miner_current = \<lparr>checkpoint_id = 7, miner_round_id = 10\<rparr>"

text \<open>
  An entropy block whose first word is 26 and whose other words are 0, and a round that
  holds it.
\<close>

definition c6_hash :: "8 word list" where
  "c6_hash = [26, 0, 0, 0, 0, 0, 0, 0] @ replicate 24 0"

definition c6_round :: round where
  "c6_round = \<lparr>deployed = replicate 25 0, slot_hash = c6_hash, count = replicate 25 0,
     expires_at = 0, motherlode = 0, total_deployed = 0\<rparr>"

text \<open>The first board notification: round 42, whose account exists.\<close>

definition c10_board :: board where
  "c10_board = \<lparr>round_id = 42, start_slot = 1000, end_slot = 1150\<rparr>"

definition c10_env :: rpc_env where
  "c10_env = \<lparr>finalFetch = NoAccount, roundFetch = Account (Some c7_round),
     unsubscribeOk = True, newSubscriptionId = 1\<rparr>"


text \<open>
  A round in which square 1 holds 0.1 SOL and every other square 1 SOL, and a state in
  mode \<open>25x EV\<close> with a price ratio of 1/2.
\<close>

definition c2_round :: round where
  "c2_round = \<lparr>deployed = 100000000 # replicate 24 1000000000,
     slot_hash = replicate 32 0,
     count = replicate 25 1,
     expires_at = 0, motherlode = 0, total_deployed = 24100000000\<rparr>"

definition c2_state :: app_state where
  "c2_state = initial_state\<lparr>appMode := TWENTY_FIVE_X_EV, priceOreSol := 1 / 2\<rparr>"

section \<open>Facts about the constants\<close>

lemmas mode_defs = IDLE_def ONE_X_EV_def THREE_X_EV_def FIVE_X_EV_def TWENTY_FIVE_X_EV_def

lemmas ev_consts = REF_MULT_def ADMIN_FEE_def PROTOCOL_CUT_def P_WIN_def HIT_PROB_def
  ADMIN_COST_FACTOR_def C_def

section \<open>The valuation model\<close>

lemma C_val: "C = 2401 / 99"
  by (simp add: ev_consts)

lemma refine_last:
  "0 < n \<Longrightarrow> refine n Ov Tv ore (y0, V0) = (ys, V) \<Longrightarrow>
   \<exists>yp. V = (1 - PROTOCOL_CUT) * (Tv - Ov - yp) + ore \<and>
        (V \<le> 0 \<and> ys = yp \<or> 0 < V \<and> ys = max 0 (sqrt ((V * Ov) / C) - Ov))"
proof (induction n arbitrary: y0 V0)
  case 0
  then show ?case by simp
next
  case (Suc n)
  let ?V = "(1 - PROTOCOL_CUT) * (Tv - Ov - y0) + ore"
  show ?case
  proof (cases "?V \<le> 0")
    case True
    with Suc.prems have "ys = y0" "V = ?V" by (auto simp: Let_def)
    with True show ?thesis by blast
  next
    case False
    let ?y1 = "max 0 (sqrt ((?V * Ov) / C) - Ov)"
    from False Suc.prems have run: "refine n Ov Tv ore (?y1, ?V) = (ys, V)"
      by (simp add: Let_def)
    show ?thesis
    proof (cases n)
      case 0
      with run have "ys = ?y1" "V = ?V" by auto
      with False show ?thesis by (intro exI[of _ y0]) simp
    next
      case (Suc m)
      then have "0 < n" by simp
      from Suc.IH[OF this run] show ?thesis .
    qed
  qed
qed

lemma sqrt_gt_99: "99 < sqrt x \<longleftrightarrow> 9801 < x"
proof -
  have "sqrt 9801 = 99" by (rule real_sqrt_unique) simp_all
  then show ?thesis using real_sqrt_less_iff[of 9801 x] by simp
qed

lemma c3_y2_bounds: "0 < c3_y2" "c3_y2 < 99"
proof -
  have "99 < sqrt ((24901 / 10 * 99) / C)" by (simp add: sqrt_gt_99 C_val)
  then show "0 < c3_y2" by (simp add: c3_y2_def)
  have "sqrt 39204 = 198" by (rule real_sqrt_unique) simp_all
  moreover have "sqrt ((24901 / 10 * 99) / C) < sqrt 39204"
    unfolding real_sqrt_less_iff by (simp add: C_val)
  ultimately show "c3_y2 < 99" by (simp add: c3_y2_def)
qed

lemma c3_V3_bounds: "2401 < c3_V3" "c3_V3 < 24901 / 10"
  using c3_y2_bounds by (simp_all add: c3_V3_def PROTOCOL_CUT_def)

lemma c3_y3_bounds: "0 < c3_y3" "c3_y3 < c3_y2"
proof -
  have "9801 < (c3_V3 * 99) / C" using c3_V3_bounds(1) by (simp add: C_val)
  then show "0 < c3_y3" by (simp add: c3_y3_def sqrt_gt_99)
  have "(c3_V3 * 99) / C < (24901 / 10 * 99) / C"
    using c3_V3_bounds(2) by (simp add: C_val)
  then show "c3_y3 < c3_y2"
    by (simp add: c3_y3_def c3_y2_def)
qed

lemma c3_refine:
  "refine 3 99 198 2401 (sqrt ((2401 * 99) / C), (1 - PROTOCOL_CUT) * (198 - 99) + 2401)
     = (c3_y3, c3_V3)"
proof -
  have s0: "sqrt ((2401 * 99) / C) = 99"
    by (rule real_sqrt_unique) (simp_all add: C_val)
  have three: "(3::nat) = Suc (Suc (Suc 0))" by simp
  have V2: "(1 - PROTOCOL_CUT) * (198 - 99 - 0) + 2401 = (24901 / 10 :: real)"
    by (simp add: PROTOCOL_CUT_def)
  have y2: "max 0 (sqrt ((24901 / 10 * 99) / C) - 99) = c3_y2"
    using c3_y2_bounds(1) by (simp add: c3_y2_def)
  have y3: "max 0 (sqrt ((c3_V3 * 99) / C) - 99) = c3_y3"
    using c3_y3_bounds(1) by (simp add: c3_y3_def)
  have V3pos: "\<not> c3_V3 \<le> 0" using c3_V3_bounds(1) by simp
  have step1: "refine 3 99 198 2401 (99, (1 - PROTOCOL_CUT) * (198 - 99) + 2401)
      = refine 2 99 198 2401 (0, 2401)"
    unfolding three numeral_2_eq_2 refine.simps Let_def
    using s0 by (simp add: PROTOCOL_CUT_def)
  have step2: "refine 2 99 198 2401 (0, 2401) = refine 1 99 198 2401 (c3_y2, 24901 / 10)"
    unfolding numeral_2_eq_2 One_nat_def refine.simps Let_def V2 y2 by simp
  have step3: "refine 1 99 198 2401 (c3_y2, 24901 / 10) = (c3_y3, c3_V3)"
    unfolding One_nat_def refine.simps Let_def c3_V3_def[symmetric] y3 using V3pos by simp
  show ?thesis unfolding s0 step1 step2 step3 ..
qed

lemma c3_result:
  "computeEVStarForBlock (Fin 99) (Fin 198) 2401 =
     \<lparr>y = Fin c3_y3,
      EV = Fin (P_WIN * (- 24 * c3_y3 + c3_V3 * (c3_y3 / (99 + c3_y3))) - ADMIN_COST_FACTOR * c3_y3)\<rparr>"
proof -
  have a: "\<not> (1 - PROTOCOL_CUT) * (198 - 99) + 2401 \<le> (0::real)" by (simp add: PROTOCOL_CUT_def)
  have b: "\<not> (2401 * 99) / C < 0" by (simp add: C_val)
  have c: "\<not> c3_y3 \<le> 0" using c3_y3_bounds(1) by simp
  show ?thesis
    unfolding computeEVStarForBlock_def jsnum.case Let_def c3_refine prod.case
    using a b c by simp
qed

text \<open>
  Claim C3, as amended.  Whenever the guards pass and the returned \<open>y*\<close> is positive, the
  returned expected value is \<open>P_WIN * (-(25 - 1) * y* + V_last * f) - ADMIN_COST_FACTOR * y*\<close>
  with \<open>f = y* / (O + y*)\<close>, where \<open>V_last\<close> is the pool value of the last pass of the
  loop: it is computed from the iterate \<open>yp\<close> that entered that pass, and \<open>y*\<close> is the
  refinement of \<open>yp\<close> (or \<open>yp\<close> itself when \<open>V_last\<close> is not positive and the loop broke).
\<close>

theorem C3_final_EV_uses_last_loop_value:
  assumes "0 < Ov" and "0 < Tv" and "0 < (1 - PROTOCOL_CUT) * (Tv - Ov) + V0"
    and "y (computeEVStarForBlock (Fin Ov) (Fin Tv) V0) = Fin ys" and "0 < ys"
  shows "\<exists>yp. EV (computeEVStarForBlock (Fin Ov) (Fin Tv) V0) =
              Fin (P_WIN * (- (25 - 1) * ys
                     + ((1 - PROTOCOL_CUT) * (Tv - Ov - yp) + V0) * (ys / (Ov + ys)))
                   - ADMIN_COST_FACTOR * ys)
            \<and> ((1 - PROTOCOL_CUT) * (Tv - Ov - yp) + V0 \<le> 0 \<and> ys = yp
               \<or> 0 < (1 - PROTOCOL_CUT) * (Tv - Ov - yp) + V0
                 \<and> ys = sqrt ((((1 - PROTOCOL_CUT) * (Tv - Ov - yp) + V0) * Ov) / C) - Ov)"
proof -
  let ?Vi = "(1 - PROTOCOL_CUT) * (Tv - Ov) + V0"
  let ?r = "refine 3 Ov Tv V0 (sqrt ((V0 * Ov) / C), ?Vi)"
  obtain yStar V where run: "?r = (yStar, V)" by (cases ?r)
  have nonan: "\<not> (V0 * Ov) / C < 0"
  proof
    assume "(V0 * Ov) / C < 0"
    with assms(1-3) have "y (computeEVStarForBlock (Fin Ov) (Fin Tv) V0) = NaN"
      by (simp add: computeEVStarForBlock_def Let_def)
    with assms(4) show False by simp
  qed
  have pos: "\<not> yStar \<le> 0"
  proof
    assume "yStar \<le> 0"
    with assms(1-3) nonan run have "y (computeEVStarForBlock (Fin Ov) (Fin Tv) V0) = Fin 0"
      by (simp add: computeEVStarForBlock_def Let_def)
    with assms(4,5) show False by simp
  qed
  from assms(1-3) nonan run pos
  have res: "computeEVStarForBlock (Fin Ov) (Fin Tv) V0 =
      \<lparr>y = Fin yStar,
       EV = Fin (P_WIN * (- 24 * yStar + V * (yStar / (Ov + yStar))) - ADMIN_COST_FACTOR * yStar)\<rparr>"
    by (simp add: computeEVStarForBlock_def Let_def)
  with assms(4) have ys: "ys = yStar" by simp
  from refine_last[OF _ run] obtain yp where
    V: "V = (1 - PROTOCOL_CUT) * (Tv - Ov - yp) + V0" and
    alt: "V \<le> 0 \<and> yStar = yp \<or> 0 < V \<and> yStar = max 0 (sqrt ((V * Ov) / C) - Ov)"
    by auto
  from alt pos have alt': "V \<le> 0 \<and> yStar = yp \<or> 0 < V \<and> yStar = sqrt ((V * Ov) / C) - Ov"
    by (auto simp: max_def split: if_splits)
  show ?thesis
    using res alt' unfolding ys V by (intro exI[of _ yp]) simp
qed

theorem C3_final_EV_uses_last_loop_value_witness:
  "(0::real) < 99 \<and> (0::real) < 198 \<and> 0 < (1 - PROTOCOL_CUT) * (198 - 99) + 2401
   \<and> y (computeEVStarForBlock (Fin 99) (Fin 198) 2401) = Fin c3_y3 \<and> 0 < c3_y3
   \<and> (\<exists>yp. EV (computeEVStarForBlock (Fin 99) (Fin 198) 2401) =
              Fin (P_WIN * (- (25 - 1) * c3_y3
                     + ((1 - PROTOCOL_CUT) * (198 - 99 - yp) + 2401) * (c3_y3 / (99 + c3_y3)))
                   - ADMIN_COST_FACTOR * c3_y3)
            \<and> ((1 - PROTOCOL_CUT) * (198 - 99 - yp) + 2401 \<le> 0 \<and> c3_y3 = yp
               \<or> 0 < (1 - PROTOCOL_CUT) * (198 - 99 - yp) + 2401
                 \<and> c3_y3 = sqrt ((((1 - PROTOCOL_CUT) * (198 - 99 - yp) + 2401) * 99) / C) - 99))"
proof -
  have h3: "0 < (1 - PROTOCOL_CUT) * (198 - 99) + (2401::real)" by (simp add: PROTOCOL_CUT_def)
  have h4: "y (computeEVStarForBlock (Fin 99) (Fin 198) 2401) = Fin c3_y3"
    by (simp add: c3_result)
  show ?thesis
    using C3_final_EV_uses_last_loop_value[of 99 198 2401 c3_y3, OF _ _ h3 h4 c3_y3_bounds(1)]
      h3 h4 c3_y3_bounds(1) by simp
qed

text \<open>
  Claim C3 as stated fails: for a square holding 99 of 198 staked and a reward value of
  2401 the returned \<open>y*\<close> is positive, and the returned expected value differs from the
  formula with the pool value recomputed from the returned \<open>y*\<close>.
\<close>

theorem C3_spec_formula_counterexample:
  "0 < (1 - PROTOCOL_CUT) * (198 - 99) + (2401::real)
   \<and> y (computeEVStarForBlock (Fin 99) (Fin 198) 2401)
       = Fin (the_fin (y (computeEVStarForBlock (Fin 99) (Fin 198) 2401)))
   \<and> 0 < the_fin (y (computeEVStarForBlock (Fin 99) (Fin 198) 2401))
   \<and> EV (computeEVStarForBlock (Fin 99) (Fin 198) 2401)
       \<noteq> Fin (spec_EV 99 198 2401 (the_fin (y (computeEVStarForBlock (Fin 99) (Fin 198) 2401))))"
proof -
  have f: "c3_y3 / (99 + c3_y3) \<noteq> 0" using c3_y3_bounds(1) by simp
  have "c3_V3 \<noteq> (1 - PROTOCOL_CUT) * (198 - 99 - c3_y3) + 2401"
    using c3_y3_bounds(2) by (simp add: c3_V3_def PROTOCOL_CUT_def)
  with f have "c3_V3 * (c3_y3 / (99 + c3_y3))
      \<noteq> ((1 - PROTOCOL_CUT) * (198 - 99 - c3_y3) + 2401) * (c3_y3 / (99 + c3_y3))"
    by (metis mult_cancel_right)
  then have "P_WIN * (- 24 * c3_y3 + c3_V3 * (c3_y3 / (99 + c3_y3))) - ADMIN_COST_FACTOR * c3_y3
      \<noteq> spec_EV 99 198 2401 c3_y3"
    by (simp add: spec_EV_def Let_def P_WIN_def)
  then show ?thesis
    using c3_y3_bounds(1) by (simp add: c3_result PROTOCOL_CUT_def)
qed

text \<open>
  Claim C7, as amended.  The external reward valuation is the product of the claim, taken
  on the pool size scaled to whole reward units (\<open>motherlode * 10^-11\<close>), plus one base
  reward unit \<open>REF_MULT * priceOreSol\<close>; a non-finite scaled pool size is replaced by the
  default 0.2.
\<close>

theorem C7_reward_valuation:
  "getOreValueInSOL s rd =
     spec_reward_valuation (real (unat (motherlode rd)) * (1 / 10 ^ 11)) (priceOreSol s)
       + REF_MULT * priceOreSol s
   \<and> oreValueOf p (Fin m) = spec_reward_valuation m p + REF_MULT * p
   \<and> oreValueOf p PosInf = spec_reward_valuation (2 / 10) p + REF_MULT * p
   \<and> oreValueOf p NegInf = spec_reward_valuation (2 / 10) p + REF_MULT * p
   \<and> oreValueOf p NaN = spec_reward_valuation (2 / 10) p + REF_MULT * p"
  by (simp add: getOreValueInSOL_def oreValueOf_def spec_reward_valuation_def Let_def algebra_simps)

text \<open>
  Claim C7 as stated fails: with a price ratio of 1 and a pool of 625 reward units the
  valuation is 1.8, while the product of the claim is 0.9 on the scaled pool size and
  90000000000 on the raw one.
\<close>

theorem C7_spec_formula_counterexample:
  "getOreValueInSOL c7_state c7_round = 18 / 10
   \<and> getOreValueInSOL c7_state c7_round
       \<noteq> spec_reward_valuation (real (unat (motherlode c7_round)) * (1 / 10 ^ 11))
           (priceOreSol c7_state)
   \<and> getOreValueInSOL c7_state c7_round
       \<noteq> spec_reward_valuation (real (unat (motherlode c7_round))) (priceOreSol c7_state)"
  by (simp add: getOreValueInSOL_def oreValueOf_def spec_reward_valuation_def Let_def
      c7_state_def c7_round_def initial_state_def HIT_PROB_def REF_MULT_def)

text \<open>
  A criterion for a positive expected value: when every iterate stays below a bound \<open>B\<close>
  and the pool value at \<open>B\<close> exceeds \<open>C * O\<close>, the loop does not break, the returned \<open>y*\<close>
  is positive and the expected value is \<open>P_WIN * C * y*\<^sup>2 / O\<close>.
\<close>

lemma C_pos: "0 < C"
  by (simp add: C_val)

lemma refine_positive:
  assumes "0 < Ov" and "0 \<le> B"
    and "(((1 - PROTOCOL_CUT) * (Tv - Ov) + ore) * Ov) / C \<le> (B + Ov)\<^sup>2"
    and "C * Ov < (1 - PROTOCOL_CUT) * (Tv - Ov - B) + ore"
    and "0 < n" and "0 \<le> y0" and "y0 \<le> B"
  shows "\<exists>ys V. refine n Ov Tv ore (y0, V0) = (ys, V) \<and> 0 < ys \<and> ys \<le> B \<and> 0 < V
           \<and> ys = sqrt ((V * Ov) / C) - Ov"
  using assms(5-7)
proof (induction n arbitrary: y0 V0)
  case 0
  then show ?case by simp
next
  case (Suc n)
  let ?V = "(1 - PROTOCOL_CUT) * (Tv - Ov - y0) + ore"
  let ?y1 = "sqrt ((?V * Ov) / C) - Ov"
  have cut: "0 \<le> 1 - PROTOCOL_CUT" by (simp add: PROTOCOL_CUT_def)
  have lo: "(1 - PROTOCOL_CUT) * (Tv - Ov - B) + ore \<le> ?V"
    using Suc.prems(3) cut by (simp add: mult_left_mono)
  have hi: "?V \<le> (1 - PROTOCOL_CUT) * (Tv - Ov) + ore"
    using Suc.prems(2) cut by (simp add: mult_left_mono)
  from lo assms(4) have big: "C * Ov < ?V" by simp
  with C_pos assms(1) have Vpos: "0 < ?V"
    by (meson less_trans mult_pos_pos)
  have "Ov\<^sup>2 < (?V * Ov) / C"
  proof -
    define W where "W = ?V"
    from big have "C * Ov < W" by (simp add: W_def)
    with assms(1) have "C * Ov * Ov < W * Ov" by (simp only: mult_strict_right_mono)
    with C_pos have "Ov * Ov < (W * Ov) / C"
      by (simp add: pos_less_divide_eq mult.commute mult.left_commute)
    then show ?thesis by (simp add: W_def power2_eq_square)
  qed
  then have "sqrt (Ov\<^sup>2) < sqrt ((?V * Ov) / C)" by (simp only: real_sqrt_less_iff)
  with assms(1) have y1pos: "0 < ?y1" by simp
  have "(?V * Ov) / C \<le> (B + Ov)\<^sup>2"
  proof -
    have "(?V * Ov) / C \<le> (((1 - PROTOCOL_CUT) * (Tv - Ov) + ore) * Ov) / C"
      using hi C_pos assms(1) by (simp add: divide_right_mono mult_right_mono)
    with assms(3) show ?thesis by simp
  qed
  then have "sqrt ((?V * Ov) / C) \<le> sqrt ((B + Ov)\<^sup>2)" by (simp only: real_sqrt_le_iff)
  with assms(1,2) have y1le: "?y1 \<le> B" by simp
  have step: "refine (Suc n) Ov Tv ore (y0, V0) = refine n Ov Tv ore (?y1, ?V)"
    using Vpos y1pos by (simp add: Let_def max_def)
  show ?case
  proof (cases n)
    case 0
    with step Vpos y1pos y1le show ?thesis by simp
  next
    case (Suc m)
    then have "0 < n" by simp
    from Suc.IH[OF this, of ?y1 ?V] y1pos y1le step show ?thesis by simp
  qed
qed

lemma EV_closed_form:
  assumes "0 < Ov" and "0 < ys" and "ys = sqrt ((V * Ov) / C) - Ov"
  shows "P_WIN * (- 24 * ys + V * (ys / (Ov + ys))) - ADMIN_COST_FACTOR * ys
           = P_WIN * C * ys\<^sup>2 / Ov"
proof -
  from assms have s: "sqrt ((V * Ov) / C) = Ov + ys" by simp
  from assms have "0 \<le> (V * Ov) / C"
    by (smt (verit) real_sqrt_ge_0_iff)
  with s have "(V * Ov) / C = (Ov + ys)\<^sup>2"
    by (metis real_sqrt_pow2)
  with C_pos assms(1) have V: "V = C * (Ov + ys)\<^sup>2 / Ov"
    by (simp add: field_simps)
  have PC: "ADMIN_COST_FACTOR = P_WIN * C - 24 * P_WIN"
    by (simp add: ev_consts)
  have ne: "Ov + ys \<noteq> 0" "Ov \<noteq> 0" using assms(1,2) by simp_all
  have share: "V * (ys / (Ov + ys)) = C * (Ov + ys) * ys / Ov"
    unfolding V using ne by (simp add: power2_eq_square)
  show ?thesis
    unfolding share PC using ne(2) by (simp add: field_simps power2_eq_square)
qed

lemma computeEV_positive:
  assumes "0 < Ov" and "Ov \<le> Tv" and "0 \<le> ore" and "0 \<le> B"
    and "(((1 - PROTOCOL_CUT) * (Tv - Ov) + ore) * Ov) / C \<le> (B + Ov)\<^sup>2"
    and "C * Ov < (1 - PROTOCOL_CUT) * (Tv - Ov - B) + ore"
    and "(ore * Ov) / C \<le> B\<^sup>2"
  shows "\<exists>v. EV (computeEVStarForBlock (Fin Ov) (Fin Tv) ore) = Fin v \<and> 0 < v"
proof -
  let ?Vi = "(1 - PROTOCOL_CUT) * (Tv - Ov) + ore"
  let ?y0 = "sqrt ((ore * Ov) / C)"
  have Tpos: "0 < Tv" using assms(1,2) by simp
  have cut: "0 \<le> 1 - PROTOCOL_CUT" by (simp add: PROTOCOL_CUT_def)
  have "(1 - PROTOCOL_CUT) * (Tv - Ov - B) + ore \<le> ?Vi"
    using assms(4) cut by (simp add: mult_left_mono)
  with assms(6) have "C * Ov < ?Vi" by simp
  with C_pos assms(1) have Vipos: "0 < ?Vi" by (meson less_trans mult_pos_pos)
  have arg: "0 \<le> (ore * Ov) / C" using assms(1,3) C_pos by simp
  then have y0: "0 \<le> ?y0" by simp
  have "?y0 \<le> sqrt (B\<^sup>2)" using assms(7) by (simp only: real_sqrt_le_iff)
  with assms(4) have y0B: "?y0 \<le> B" by simp
  from refine_positive[OF assms(1,4,5,6) _ y0 y0B, of 3 ?Vi]
  obtain ys V where run: "refine 3 Ov Tv ore (?y0, ?Vi) = (ys, V)"
    and ys: "0 < ys" and V: "ys = sqrt ((V * Ov) / C) - Ov"
    by auto
  have res: "EV (computeEVStarForBlock (Fin Ov) (Fin Tv) ore)
      = Fin (P_WIN * (- 24 * ys + V * (ys / (Ov + ys))) - ADMIN_COST_FACTOR * ys)"
    using assms(1) Tpos Vipos arg run ys
    by (simp add: computeEVStarForBlock_def Let_def)
  have "0 < P_WIN * C * ys\<^sup>2 / Ov"
    using C_pos assms(1) ys by (simp add: P_WIN_def)
  with res EV_closed_form[OF assms(1) ys V] show ?thesis by simp
qed

section \<open>The board analyzer\<close>

text \<open>The sort keeps the elements and orders them; it is stable.\<close>

lemma js_insert_set: "set (js_insert cmp x xs) = insert x (set xs)"
  by (induction xs) auto

lemma js_sort_set: "set (js_sort cmp xs) = set xs"
  unfolding js_sort_def by (induction xs) (simp_all add: js_insert_set)













text \<open>A square with a positive EV gives a best square.\<close>

lemma analysis_has_best:
  assumes "NUM_SQUARES \<le> length (count rd)" and "NUM_SQUARES \<le> length (deployed rd)"
    and "j < NUM_SQUARES"
    and "js_less (Fin 0)
           (ev (square_ev (real (unat (total_deployed rd)) * SOL_PER_LAMPORT)
                  (getOreValueInSOL s rd) rd j))"
  shows "\<exists>a b. analyzeBoardState s (Some rd) = Inr a \<and> bestEV a = Some b \<and> byEV a \<noteq> []"
proof -
  let ?Tv = "real (unat (total_deployed rd)) * SOL_PER_LAMPORT"
  let ?ore = "getOreValueInSOL s rd"
  let ?evs = "filter (\<lambda>e. js_less (Fin 0) (ev e)) (map (square_ev ?Tv ?ore rd) [0..<NUM_SQUARES])"
  let ?byEV = "js_sort (\<lambda>a b. js_sub (ev b) (ev a)) ?evs"
  obtain a where a: "analyzeBoardState s (Some rd) = Inr a"
    and bE: "byEV a = ?byEV"
    and best: "bestEV a = (case ?byEV of [] \<Rightarrow> None | e # _ \<Rightarrow> Some e)"
    using assms(1,2) by (simp add: analyzeBoardState_def Let_def)
  have nonempty: "\<And>x xs. (x::ev_sq) \<in> set xs \<Longrightarrow> xs \<noteq> []" by auto
  have "square_ev ?Tv ?ore rd j \<in> set ?evs" using assms(3,4) by simp
  then have "square_ev ?Tv ?ore rd j \<in> set ?byEV" by (simp only: js_sort_set)
  then have ne: "?byEV \<noteq> []" by (rule nonempty)
  then obtain b bs where "?byEV = b # bs" by (cases ?byEV) simp_all
  with best have "bestEV a = Some b" by simp
  with a bE ne show ?thesis by simp
qed

lemma c2_square_1:
  "\<exists>v. EV (computeEVStarForBlock (Fin (1 / 10)) (Fin (241 / 10)) (9 / 20)) = Fin v \<and> 0 < v"
  by (rule computeEV_positive[where B = 1])
     (simp_all add: C_val PROTOCOL_CUT_def power2_eq_square)

lemma c2_analysis:
  assumes "priceOreSol s = 1 / 2"
  shows "\<exists>a b. analyzeBoardState s (Some c2_round) = Inr a \<and> bestEV a = Some b \<and> byEV a \<noteq> []"
proof (rule analysis_has_best[where j = 0])
  show "NUM_SQUARES \<le> length (count c2_round)" by (simp add: c2_round_def NUM_SQUARES_def)
  show "NUM_SQUARES \<le> length (deployed c2_round)" by (simp add: c2_round_def NUM_SQUARES_def)
  show "0 < NUM_SQUARES" by (simp add: NUM_SQUARES_def)
  have T: "real (unat (total_deployed c2_round)) * SOL_PER_LAMPORT = 241 / 10"
    by (simp add: c2_round_def SOL_PER_LAMPORT_def)
  have ore: "getOreValueInSOL s c2_round = 9 / 20"
    using assms by (simp add: getOreValueInSOL_def oreValueOf_def c2_round_def REF_MULT_def)
  have sol: "square_sol c2_round 0 = 1 / 10"
    by (simp add: square_sol_def c2_round_def SOL_PER_LAMPORT_def)
  from c2_square_1 obtain v where
    "EV (computeEVStarForBlock (Fin (1 / 10)) (Fin (241 / 10)) (9 / 20)) = Fin v" and "0 < v"
    by blast
  then show "js_less (Fin 0)
     (ev (square_ev (real (unat (total_deployed c2_round)) * SOL_PER_LAMPORT)
            (getOreValueInSOL s c2_round) c2_round 0))"
    unfolding T ore by (simp add: square_ev_def Let_def sol)
qed

section \<open>The automation trigger\<close>

lemma filter_analyze_logs [simp]: "filter is_analyze (map (\<lambda>t. Log (f t)) ts) = []"
  by (induction ts) simp_all

lemma filter_deploy_logs [simp]: "filter is_deploy_request (map (\<lambda>t. Log (f t)) ts) = []"
  by (induction ts) simp_all

lemma runAutomationCheck_noop:
  "appMode s = IDLE \<or> secs > 8 \<or> secs \<le> 0 \<or> automationHasRunThisRound s \<Longrightarrow>
   runAutomationCheck s signer rd secs = (s, [], None)"
  by (auto simp: runAutomationCheck_def AUTOMATION_TRIGGER_SECONDS_def)

lemma runAutomationCheck_fires:
  assumes "appMode s \<noteq> IDLE" "0 < secs" "secs \<le> 8" "\<not> automationHasRunThisRound s"
  shows "\<exists>rest err. runAutomationCheck s signer rd secs =
           (s\<lparr>automationHasRunThisRound := True\<rparr>,
            Log (MsgTrigger (appMode s) secs) # AnalyzeBoard rd # rest, err)
         \<and> filter is_analyze rest = [] \<and> length (filter is_deploy_request rest) \<le> 1"
  using assms
  by (auto simp: runAutomationCheck_def AUTOMATION_TRIGGER_SECONDS_def Let_def
      split: sum.splits option.splits)

lemma runAutomationCheck_cases:
  "runAutomationCheck s signer rd secs = (s, [], None) \<or>
   (\<exists>rest err. runAutomationCheck s signer rd secs =
           (s\<lparr>automationHasRunThisRound := True\<rparr>,
            Log (MsgTrigger (appMode s) secs) # AnalyzeBoard rd # rest, err)
         \<and> filter is_analyze rest = [] \<and> length (filter is_deploy_request rest) \<le> 1)"
  using runAutomationCheck_noop[of s secs signer rd] runAutomationCheck_fires[of s secs signer rd]
  by fastforce

lemma round_step_flag:
  "automationHasRunThisRound s \<Longrightarrow>
   snd (round_step s e) = [] \<and> automationHasRunThisRound (fst (round_step s e))"
  by (cases e) (simp_all add: runAutomationCheck_noop setAppMode_def toggleSpeculate_def)

lemma run_round_flag:
  "automationHasRunThisRound s \<Longrightarrow>
   snd (run_round s es) = [] \<and> automationHasRunThisRound (fst (run_round s es))"
proof (induction es arbitrary: s)
  case Nil
  then show ?case by simp
next
  case (Cons e es)
  from round_step_flag[OF Cons.prems, of e]
  obtain s1 where st: "round_step s e = (s1, [])" and fl: "automationHasRunThisRound s1"
    by (cases "round_step s e") auto
  from Cons.IH[OF fl] st show ?case by (simp split: prod.splits)
qed

lemma round_step_count:
  "length (filter is_analyze (snd (round_step s e))) \<le> 1
   \<and> length (filter is_deploy_request (snd (round_step s e))) \<le> 1
   \<and> (snd (round_step s e) \<noteq> [] \<longrightarrow> automationHasRunThisRound (fst (round_step s e)))"
proof (cases e)
  case (Tick signer rd secs)
  from runAutomationCheck_cases[of s signer rd secs] show ?thesis
    unfolding Tick by auto
qed (simp_all)

lemma run_round_count:
  "length (filter is_analyze (snd (run_round s es))) \<le> 1
   \<and> length (filter is_deploy_request (snd (run_round s es))) \<le> 1"
proof (induction es arbitrary: s)
  case Nil
  then show ?case by simp
next
  case (Cons e es)
  obtain s1 out1 where st: "round_step s e = (s1, out1)" by (cases "round_step s e")
  obtain s2 out2 where rr: "run_round s1 es = (s2, out2)" by (cases "run_round s1 es")
  have tot: "snd (run_round s (e # es)) = out1 @ out2" using st rr by simp
  show ?case
  proof (cases "out1 = []")
    case True
    with Cons.IH[of s1] rr tot show ?thesis by simp
  next
    case False
    with round_step_count[of s e] st have "automationHasRunThisRound s1" by simp
    from run_round_flag[OF this, of es] rr have "out2 = []" by simp
    with round_step_count[of s e] st tot show ?thesis by simp
  qed
qed

text \<open>
  Claim C1.  With the flag \<open>automationHasRunThisRound\<close> already set, \<open>runAutomationCheck\<close>
  does nothing, whatever the mode and the remaining seconds.  Whenever it does anything,
  the flag is set in the state it leaves (also when the analysis raises), and the
  analysis comes right after the trigger line.  Over any sequence of ticks and key
  presses within one round there is at most one analysis and at most one deployment
  request.
\<close>

theorem C1_trigger_at_most_once_per_round:
  "(automationHasRunThisRound s \<longrightarrow> runAutomationCheck s signer rd secs = (s, [], None))
   \<and> (fst (snd (runAutomationCheck s signer rd secs)) \<noteq> [] \<longrightarrow>
        automationHasRunThisRound (fst (runAutomationCheck s signer rd secs))
        \<and> (\<exists>rest. fst (snd (runAutomationCheck s signer rd secs))
               = Log (MsgTrigger (appMode s) secs) # AnalyzeBoard rd # rest))
   \<and> length (filter is_analyze (snd (run_round s es))) \<le> 1
   \<and> length (filter is_deploy_request (snd (run_round s es))) \<le> 1"
  using runAutomationCheck_cases[of s signer rd secs] run_round_count[of s es]
    runAutomationCheck_noop[of s secs signer rd]
  by auto

lemma analyze_null:
  "analyzeBoardState s None =
     Inr \<lparr>bestEV = None, bestRatio = None, byEV = [], byRatio = [], fullAnalysis = []\<rparr>"
  by (simp add: analyzeBoardState_def)

lemma auto_state_fire:
  "runAutomationCheck auto_state signer None 1 =
     (auto_state\<lparr>automationHasRunThisRound := True\<rparr>,
      [Log (MsgTrigger ONE_X_EV 1), AnalyzeBoard None, Log MsgNoPositiveEV], None)"
  by (simp add: runAutomationCheck_def auto_state_def initial_state_def mode_defs
      AUTOMATION_TRIGGER_SECONDS_def analyze_null Let_def)

theorem C1_trigger_at_most_once_per_round_witness:
  "automationHasRunThisRound (auto_state\<lparr>automationHasRunThisRound := True\<rparr>)
   \<and> runAutomationCheck (auto_state\<lparr>automationHasRunThisRound := True\<rparr>) (Some ''k'') None 5
       = (auto_state\<lparr>automationHasRunThisRound := True\<rparr>, [], None)
   \<and> fst (snd (runAutomationCheck auto_state (Some ''k'') None 1)) \<noteq> []
   \<and> automationHasRunThisRound (fst (runAutomationCheck auto_state (Some ''k'') None 1))
   \<and> length (filter is_analyze
        (snd (run_round auto_state [Tick (Some ''k'') None 1, Tick (Some ''k'') None 1]))) \<le> 1"
  using C1_trigger_at_most_once_per_round[of "auto_state\<lparr>automationHasRunThisRound := True\<rparr>"
      "Some ''k''" None 5 "[]"]
    C1_trigger_at_most_once_per_round[of auto_state "Some ''k''" None 1
      "[Tick (Some ''k'') None 1, Tick (Some ''k'') None 1]"]
  by (simp add: auto_state_fire)

text \<open>
  Claim C4.  When the mode is not idle, \<open>0 < secondsRemaining \<le> 8\<close> and the flag is not
  set, \<open>runAutomationCheck\<close> sets the flag and analyses the board; otherwise it is a no-op:
  the state is unchanged and there is no effect.
\<close>

theorem C4_trigger_guards:
  "(appMode s \<noteq> IDLE \<and> 0 < secs \<and> secs \<le> 8 \<and> \<not> automationHasRunThisRound s \<longrightarrow>
      fst (runAutomationCheck s signer rd secs) = s\<lparr>automationHasRunThisRound := True\<rparr>
      \<and> AnalyzeBoard rd \<in> set (fst (snd (runAutomationCheck s signer rd secs))))
   \<and> (\<not> (appMode s \<noteq> IDLE \<and> 0 < secs \<and> secs \<le> 8 \<and> \<not> automationHasRunThisRound s) \<longrightarrow>
      runAutomationCheck s signer rd secs = (s, [], None))"
  using runAutomationCheck_fires[of s secs signer rd] runAutomationCheck_noop[of s secs signer rd]
  by auto

theorem C4_trigger_guards_witness:
  "runAutomationCheck auto_state (Some ''k'') None 9 = (auto_state, [], None)
   \<and> runAutomationCheck auto_state (Some ''k'') None 0 = (auto_state, [], None)
   \<and> runAutomationCheck (auto_state\<lparr>appMode := IDLE\<rparr>) (Some ''k'') None 1
       = (auto_state\<lparr>appMode := IDLE\<rparr>, [], None)
   \<and> appMode auto_state \<noteq> IDLE \<and> (0::int) < 1 \<and> (1::int) \<le> 8
   \<and> \<not> automationHasRunThisRound auto_state
   \<and> fst (runAutomationCheck auto_state (Some ''k'') None 1)
       = auto_state\<lparr>automationHasRunThisRound := True\<rparr>
   \<and> AnalyzeBoard None \<in> set (fst (snd (runAutomationCheck auto_state (Some ''k'') None 1)))"
  using C4_trigger_guards[of auto_state 9 "Some ''k''" None]
    C4_trigger_guards[of auto_state 0 "Some ''k''" None]
    C4_trigger_guards[of "auto_state\<lparr>appMode := IDLE\<rparr>" 1 "Some ''k''" None]
    C4_trigger_guards[of auto_state 1 "Some ''k''" None]
  by (simp add: auto_state_def initial_state_def mode_defs)

text \<open>
  Claim C9.  Once \<open>runAutomationCheck\<close> has passed its guards, the flag is set and the
  board has been analysed; when the attempt ends without a deployment request, nothing
  that follows in the round (ticks, mode changes, toggling speculation) has any effect,
  and the flag stays set.
\<close>

theorem C9_failed_attempt_consumes_trigger:
  assumes "appMode s \<noteq> IDLE" and "0 < secs" and "secs \<le> 8"
    and "\<not> automationHasRunThisRound s"
    and "runAutomationCheck s signer rd secs = (s1, out1, err)"
    and "filter is_deploy_request out1 = []"
  shows "automationHasRunThisRound s1 \<and> AnalyzeBoard rd \<in> set out1
         \<and> snd (run_round s1 es) = []
         \<and> automationHasRunThisRound (fst (run_round s1 es))"
proof -
  from runAutomationCheck_fires[OF assms(1-4), of signer rd] assms(5)
  have "s1 = s\<lparr>automationHasRunThisRound := True\<rparr>" and an: "AnalyzeBoard rd \<in> set out1"
    by auto
  then have fl: "automationHasRunThisRound s1" by simp
  from run_round_flag[OF fl, of es] fl an show ?thesis by simp
qed

theorem C9_failed_attempt_consumes_trigger_witness:
  "appMode auto_state \<noteq> IDLE \<and> (0::int) < 1 \<and> (1::int) \<le> 8
   \<and> \<not> automationHasRunThisRound auto_state
   \<and> runAutomationCheck auto_state None None 1 =
       (auto_state\<lparr>automationHasRunThisRound := True\<rparr>,
        [Log (MsgTrigger ONE_X_EV 1), AnalyzeBoard None, Log MsgNoPositiveEV], None)
   \<and> filter is_deploy_request
       [Log (MsgTrigger ONE_X_EV 1), AnalyzeBoard None, Log MsgNoPositiveEV] = []
   \<and> snd (run_round (auto_state\<lparr>automationHasRunThisRound := True\<rparr>)
            [Tick (Some ''k'') None 1, SetMode FIVE_X_EV, Tick (Some ''k'') None 1]) = []"
proof -
  have a: "appMode auto_state \<noteq> IDLE" by (simp add: auto_state_def initial_state_def mode_defs)
  have d: "\<not> automationHasRunThisRound auto_state" by (simp add: auto_state_def initial_state_def)
  have f: "filter is_deploy_request
       [Log (MsgTrigger ONE_X_EV 1), AnalyzeBoard None, Log MsgNoPositiveEV] = []" by simp
  from C9_failed_attempt_consumes_trigger[OF a _ _ d auto_state_fire f,
      of "[Tick (Some ''k'') None 1, SetMode FIVE_X_EV, Tick (Some ''k'') None 1]"]
  show ?thesis using a d f auto_state_fire by simp
qed

text \<open>The selection in the other modes.\<close>

lemma selectTargets_modes:
  "selectTargets ONE_X_EV a = (case bestEV a of Some b \<Rightarrow> [b] | None \<Rightarrow> [])"
  "selectTargets THREE_X_EV a = take 3 (byEV a)"
  "selectTargets FIVE_X_EV a = take 5 (byEV a)"
  "selectTargets IDLE a = []"
  "mode \<notin> set APP_MODES \<Longrightarrow> selectTargets mode a = []"
  by (simp_all add: selectTargets_def mode_defs APP_MODES_def)

text \<open>Mode \<open>25x EV\<close> selects nothing, whatever the analysis holds.\<close>

lemma top25_mode_never_deploys:
  "selectTargets TWENTY_FIVE_X_EV a = []
   \<and> filter is_deploy_request
       (fst (snd (runAutomationCheck (s\<lparr>appMode := TWENTY_FIVE_X_EV\<rparr>) signer rd secs))) = []"
proof -
  have sel: "\<And>a. selectTargets TWENTY_FIVE_X_EV a = []"
    by (simp add: selectTargets_def mode_defs)
  have "filter is_deploy_request
       (fst (snd (runAutomationCheck (s\<lparr>appMode := TWENTY_FIVE_X_EV\<rparr>) signer rd secs))) = []"
    by (simp add: runAutomationCheck_def Let_def sel split: sum.splits)
  then show ?thesis by (simp add: sel)
qed

text \<open>
  Claim C2 at mode \<open>25x EV\<close>.  The mode is accepted by \<open>setAppMode\<close>.  On a round where
  square 1 has a positive EV, with 5 seconds left, \<open>runAutomationCheck\<close> in that mode
  selects no target and stops at the line \<open>no valid targets found\<close>, while in mode
  \<open>5x EV\<close> the same call requests a deployment.
\<close>

theorem C2_top25_mode_selects_nothing:
  "setAppMode TWENTY_FIVE_X_EV (initial_state\<lparr>priceOreSol := 1 / 2\<rparr>) = (c2_state, True)
   \<and> runAutomationCheck c2_state (Some ''k'') (Some c2_round) 5 =
       (c2_state\<lparr>automationHasRunThisRound := True\<rparr>,
        [Log (MsgTrigger TWENTY_FIVE_X_EV 5), AnalyzeBoard (Some c2_round),
         Log (MsgNoValidTargets TWENTY_FIVE_X_EV)], None)
   \<and> (\<exists>targets. targets \<noteq> [] \<and>
         SendDeployTx targets \<in> set (fst (snd (runAutomationCheck
            (c2_state\<lparr>appMode := FIVE_X_EV\<rparr>) (Some ''k'') (Some c2_round) 5))))"
proof -
  have set_mode: "setAppMode TWENTY_FIVE_X_EV (initial_state\<lparr>priceOreSol := 1 / 2\<rparr>)
      = (c2_state, True)"
    by (simp add: setAppMode_def APP_MODES_def c2_state_def initial_state_def)
  have st: "appMode c2_state = TWENTY_FIVE_X_EV" "\<not> automationHasRunThisRound c2_state"
    "\<not> isSpeculating c2_state" "priceOreSol c2_state = 1 / 2"
    by (simp_all add: c2_state_def initial_state_def)
  have not_idle: "TWENTY_FIVE_X_EV \<noteq> IDLE" "FIVE_X_EV \<noteq> IDLE" by (simp_all add: mode_defs)
  from c2_analysis[of "c2_state\<lparr>automationHasRunThisRound := True\<rparr>"] st(4)
  obtain a b where a: "analyzeBoardState (c2_state\<lparr>automationHasRunThisRound := True\<rparr>)
      (Some c2_round) = Inr a" and b: "bestEV a = Some b" and ne: "byEV a \<noteq> []"
    by auto
  have sel25: "selectTargets TWENTY_FIVE_X_EV a = []"
    by (simp add: selectTargets_def mode_defs)
  have run25: "runAutomationCheck c2_state (Some ''k'') (Some c2_round) 5 =
       (c2_state\<lparr>automationHasRunThisRound := True\<rparr>,
        [Log (MsgTrigger TWENTY_FIVE_X_EV 5), AnalyzeBoard (Some c2_round),
         Log (MsgNoValidTargets TWENTY_FIVE_X_EV)], None)"
    by (simp add: runAutomationCheck_def Let_def st not_idle AUTOMATION_TRIGGER_SECONDS_def
        a b sel25)
  from c2_analysis[of "c2_state\<lparr>appMode := FIVE_X_EV, automationHasRunThisRound := True\<rparr>"] st(4)
  obtain a5 b5 where a5: "analyzeBoardState
      (c2_state\<lparr>appMode := FIVE_X_EV, automationHasRunThisRound := True\<rparr>) (Some c2_round) = Inr a5"
    and b5: "bestEV a5 = Some b5" and ne5: "byEV a5 \<noteq> []"
    by auto
  have sel5: "selectTargets FIVE_X_EV a5 = take 5 (byEV a5)"
    by (simp add: selectTargets_def mode_defs)
  from ne5 have t5: "take 5 (byEV a5) \<noteq> []" by simp
  have "SendDeployTx (take 5 (byEV a5)) \<in> set (fst (snd (runAutomationCheck
            (c2_state\<lparr>appMode := FIVE_X_EV\<rparr>) (Some ''k'') (Some c2_round) 5)))"
    using t5 by (simp add: runAutomationCheck_def Let_def st not_idle AUTOMATION_TRIGGER_SECONDS_def
        a5 b5 sel5)
  with t5 have "\<exists>targets. targets \<noteq> [] \<and>
         SendDeployTx targets \<in> set (fst (snd (runAutomationCheck
            (c2_state\<lparr>appMode := FIVE_X_EV\<rparr>) (Some ''k'') (Some c2_round) 5)))"
    by blast
  with set_mode run25 show ?thesis by blast
qed

section \<open>The deployment sequencer\<close>

lemma sendDeployTx_no_account:
  assumes "SendAndConfirmTransaction tx \<in> set (sendDeployTx targets signer s amountLamports ra NoAccount)"
  shows "tx = [SetComputeUnitLimit 750000, SetComputeUnitPrice 100000,
               Deploy amountLamports (createSquaresMask targets) (currentRoundId s)]
         \<and> filter is_send (sendDeployTx targets signer s amountLamports ra NoAccount)
             = [SendAndConfirmTransaction tx]"
  using assms
  by (auto simp: sendDeployTx_def Let_def minerRoundId_def minerCheckpointId_def
      split: option.splits fetched.splits if_splits)

lemma sendDeployTx_account:
  assumes "SendAndConfirmTransaction tx
             \<in> set (sendDeployTx targets signer s amountLamports ra (Account (Some minerData)))"
  shows "tx = [SetComputeUnitLimit 750000, SetComputeUnitPrice 100000]
              @ (if uint (miner_round_id minerData) \<noteq> uint (checkpoint_id minerData)
                    \<and> uint (miner_round_id minerData) < currentRoundId s
                 then [Checkpoint (uint (miner_round_id minerData))] else [])
              @ [Deploy amountLamports (createSquaresMask targets) (currentRoundId s)]
         \<and> filter is_send (sendDeployTx targets signer s amountLamports ra (Account (Some minerData)))
             = [SendAndConfirmTransaction tx]"
  using assms
  by (auto simp: sendDeployTx_def Let_def minerRoundId_def minerCheckpointId_def
      split: option.splits fetched.splits if_splits)

lemma sendDeployTx_needs_miner_answer:
  assumes "SendAndConfirmTransaction tx \<in> set (sendDeployTx targets signer s amountLamports ra ma)"
  shows "ma = NoAccount \<or> (\<exists>minerData. ma = Account (Some minerData))"
proof (cases ma)
  case RpcError
  with assms show ?thesis
    by (auto simp: sendDeployTx_def split: option.splits fetched.splits if_splits)
next
  case NoAccount
  then show ?thesis by simp
next
  case (Account p)
  with assms show ?thesis
    by (cases p) (auto simp: sendDeployTx_def split: option.splits fetched.splits if_splits)
qed

text \<open>
  Claim C5.  Whenever \<open>sendDeployTx\<close> submits, it submits one transaction.  For a signer
  whose miner account holds \<open>round_id\<close> and \<open>checkpoint_id\<close>, the transaction is the two
  compute-budget instructions, then a checkpoint of the round \<open>round_id\<close> exactly when
  \<open>round_id \<noteq> checkpoint_id\<close> and \<open>round_id < currentRoundId\<close>, then the deploy instruction
  for the active round; so it holds a checkpoint exactly under that condition.  For a
  signer without a miner account it holds no checkpoint.
\<close>

theorem C5_checkpoint_precedes_deploy:
  assumes "SendAndConfirmTransaction tx \<in> set (sendDeployTx targets signer s amountLamports ra ma)"
  shows "filter is_send (sendDeployTx targets signer s amountLamports ra ma)
           = [SendAndConfirmTransaction tx]
         \<and> (ma = NoAccount \<or> (\<exists>minerData. ma = Account (Some minerData)))
         \<and> (ma = NoAccount \<longrightarrow>
              tx = [SetComputeUnitLimit 750000, SetComputeUnitPrice 100000,
                    Deploy amountLamports (createSquaresMask targets) (currentRoundId s)])
         \<and> (\<forall>minerData. ma = Account (Some minerData) \<longrightarrow>
              tx = [SetComputeUnitLimit 750000, SetComputeUnitPrice 100000]
                   @ (if uint (miner_round_id minerData) \<noteq> uint (checkpoint_id minerData)
                         \<and> uint (miner_round_id minerData) < currentRoundId s
                      then [Checkpoint (uint (miner_round_id minerData))] else [])
                   @ [Deploy amountLamports (createSquaresMask targets) (currentRoundId s)])
         \<and> (filter is_checkpoint tx \<noteq> [] \<longleftrightarrow>
              (\<exists>minerData. ma = Account (Some minerData)
                 \<and> uint (miner_round_id minerData) \<noteq> uint (checkpoint_id minerData)
                 \<and> uint (miner_round_id minerData) < currentRoundId s))"
proof -
  from sendDeployTx_needs_miner_answer[OF assms]
  consider "ma = NoAccount" | minerData where "ma = Account (Some minerData)" by blast
  then show ?thesis
  proof cases
    case 1
    from sendDeployTx_no_account[OF assms[unfolded 1]] show ?thesis
      unfolding 1 by simp
  next
    case 2
    from sendDeployTx_account[OF assms[unfolded 2]] show ?thesis
      unfolding 2 by simp
  qed
qed

text \<open>The three example deployments.\<close>

lemma c5_mask: "createSquaresMask c5_targets = 64"
  by (simp add: createSquaresMask_def c5_targets_def)

lemma c5_amount_fits: "\<not> ((999999999::int) < 0 \<or> 2 ^ 64 \<le> (999999999::int))"
  by simp

lemma c5_current: "currentRoundId c5_state = 10"
  by (simp add: c5_state_def initial_state_def)

lemma c5_length: "length c5_targets = 1"
  by (simp add: c5_targets_def)

lemma c5_run:
  "sendDeployTx c5_targets (Some ''k'') c5_state 999999999 (Account (Some c7_round))
       (Account (Some c5_miner))
     = [Log (MsgSendingDeploy 1),
        SendAndConfirmTransaction
          [SetComputeUnitLimit 750000, SetComputeUnitPrice 100000, Checkpoint 9,
           Deploy 999999999 64 10]]"
proof -
  have ids: "minerRoundId (Account (Some c5_miner)) = 9"
    "minerCheckpointId (Account (Some c5_miner)) = 7"
    by (simp_all add: minerRoundId_def minerCheckpointId_def c5_miner_def)
  show ?thesis
    unfolding sendDeployTx_def Let_def c5_mask ids c5_current c5_length
    using c5_amount_fits by simp
qed

lemma c5_run_synced:
  "sendDeployTx c5_targets (Some ''k'') c5_state 999999999 (Account (Some c7_round))
       (Account (Some c5_miner_synced))
     = [Log (MsgSendingDeploy 1),
        SendAndConfirmTransaction
          [SetComputeUnitLimit 750000, SetComputeUnitPrice 100000, Deploy 999999999 64 10]]"
proof -
  have ids: "minerRoundId (Account (Some c5_miner_synced)) = 9"
    "minerCheckpointId (Account (Some c5_miner_synced)) = 9"
    by (simp_all add: minerRoundId_def minerCheckpointId_def c5_miner_synced_def)
  show ?thesis
    unfolding sendDeployTx_def Let_def c5_mask ids c5_current c5_length
    using c5_amount_fits by simp
qed

lemma c5_run_current:
  "sendDeployTx c5_targets (Some ''k'') c5_state 999999999 (Account (Some c7_round))
       (Account (Some c5_miner_current))
     = [Log (MsgStateDirty 10), Log (MsgSendingDeploy 1),
        SendAndConfirmTransaction
          [SetComputeUnitLimit 750000, SetComputeUnitPrice 100000, Deploy 999999999 64 10]]"
proof -
  have ids: "minerRoundId (Account (Some c5_miner_current)) = 10"
    "minerCheckpointId (Account (Some c5_miner_current)) = 7"
    by (simp_all add: minerRoundId_def minerCheckpointId_def c5_miner_current_def)
  show ?thesis
    unfolding sendDeployTx_def Let_def c5_mask ids c5_current c5_length
    using c5_amount_fits by simp
qed

theorem C5_checkpoint_precedes_deploy_witness:
  "SendAndConfirmTransaction
      [SetComputeUnitLimit 750000, SetComputeUnitPrice 100000, Checkpoint 9,
       Deploy 999999999 64 10]
     \<in> set (sendDeployTx c5_targets (Some ''k'') c5_state 999999999 (Account (Some c7_round))
              (Account (Some c5_miner)))
   \<and> filter is_send (sendDeployTx c5_targets (Some ''k'') c5_state 999999999
        (Account (Some c7_round)) (Account (Some c5_miner)))
       = [SendAndConfirmTransaction
            [SetComputeUnitLimit 750000, SetComputeUnitPrice 100000, Checkpoint 9,
             Deploy 999999999 64 10]]
   \<and> uint (miner_round_id c5_miner) \<noteq> uint (checkpoint_id c5_miner)
   \<and> uint (miner_round_id c5_miner) < currentRoundId c5_state
   \<and> SendAndConfirmTransaction
      [SetComputeUnitLimit 750000, SetComputeUnitPrice 100000, Deploy 999999999 64 10]
     \<in> set (sendDeployTx c5_targets (Some ''k'') c5_state 999999999 (Account (Some c7_round))
              (Account (Some c5_miner_synced)))
   \<and> uint (miner_round_id c5_miner_synced) = uint (checkpoint_id c5_miner_synced)
   \<and> SendAndConfirmTransaction
      [SetComputeUnitLimit 750000, SetComputeUnitPrice 100000, Deploy 999999999 64 10]
     \<in> set (sendDeployTx c5_targets (Some ''k'') c5_state 999999999 (Account (Some c7_round))
              (Account (Some c5_miner_current)))
   \<and> \<not> uint (miner_round_id c5_miner_current) < currentRoundId c5_state"
proof -
  have h: "SendAndConfirmTransaction
      [SetComputeUnitLimit 750000, SetComputeUnitPrice 100000, Checkpoint 9,
       Deploy 999999999 64 10]
     \<in> set (sendDeployTx c5_targets (Some ''k'') c5_state 999999999 (Account (Some c7_round))
              (Account (Some c5_miner)))"
    unfolding c5_run by simp
  have h2: "SendAndConfirmTransaction
      [SetComputeUnitLimit 750000, SetComputeUnitPrice 100000, Deploy 999999999 64 10]
     \<in> set (sendDeployTx c5_targets (Some ''k'') c5_state 999999999 (Account (Some c7_round))
              (Account (Some c5_miner_synced)))"
    unfolding c5_run_synced by simp
  have h3: "SendAndConfirmTransaction
      [SetComputeUnitLimit 750000, SetComputeUnitPrice 100000, Deploy 999999999 64 10]
     \<in> set (sendDeployTx c5_targets (Some ''k'') c5_state 999999999 (Account (Some c7_round))
              (Account (Some c5_miner_current)))"
    unfolding c5_run_current by simp
  have ids: "uint (miner_round_id c5_miner) \<noteq> uint (checkpoint_id c5_miner)"
    "uint (miner_round_id c5_miner) < currentRoundId c5_state"
    "uint (miner_round_id c5_miner_synced) = uint (checkpoint_id c5_miner_synced)"
    "\<not> uint (miner_round_id c5_miner_current) < currentRoundId c5_state"
    unfolding c5_current
    by (simp_all add: c5_miner_def c5_miner_synced_def c5_miner_current_def)
  from C5_checkpoint_precedes_deploy[OF h]
  have one: "filter is_send (sendDeployTx c5_targets (Some ''k'') c5_state 999999999
        (Account (Some c7_round)) (Account (Some c5_miner)))
       = [SendAndConfirmTransaction
            [SetComputeUnitLimit 750000, SetComputeUnitPrice 100000, Checkpoint 9,
             Deploy 999999999 64 10]]"
    by (rule conjunct1)
  from h one ids h2 h3 show ?thesis by (intro conjI)
qed

section \<open>Outcome derivation\<close>

lemma le_nat_bound: "le_nat bs < 256 ^ length bs"
proof (induction bs)
  case Nil
  then show ?case by simp
next
  case (Cons b bs)
  have "unat b < 2 ^ LENGTH(8)" by (rule unsigned_less)
  then have "unat b < 256" by simp
  with Cons.IH show ?case by simp
qed

lemma read_ok:
  assumes "off + 8 \<le> length buf"
  shows "\<exists>r. readBigUInt64LE buf off = Inr r \<and> unat r = le_nat (take 8 (drop off buf))"
proof -
  have len: "length (take 8 (drop off buf)) = 8" using assms by simp
  have "le_nat (take 8 (drop off buf)) < 256 ^ 8"
    using le_nat_bound[of "take 8 (drop off buf)"] unfolding len .
  then have "le_nat (take 8 (drop off buf)) < 2 ^ LENGTH(64)" by simp
  then have "unat (of_nat (le_nat (take 8 (drop off buf))) :: 64 word)
      = le_nat (take 8 (drop off buf))"
    by (simp add: unat_of_nat)
  with assms show ?thesis by (simp add: readBigUInt64LE_def)
qed

lemma zero_block_not_populated: "\<not> isSlotHashPopulated (replicate n 0)"
  by (simp add: isSlotHashPopulated_def list_ex_iff)

text \<open>
  Claim C6.  On a round whose entropy block has its 32 bytes, \<open>calculateRng\<close> returns the
  XOR of the four 64-bit words whose values are the little-endian values of the four
  8-byte groups, \<open>getWinningSquare\<close> reduces that value modulo 25, and \<open>displayWinner\<close>
  announces that remainder plus 1, a square in 1..25, unless a winner was already
  announced.  All of it is a function of the block, so equal blocks give the same square.
  A block of zero bytes is not populated.
\<close>

theorem C6_outcome_derivation:
  assumes "length (slot_hash rd) = 32"
  shows "(\<exists>r1 r2 r3 r4.
            unat r1 = le_nat (take 8 (slot_hash rd))
            \<and> unat r2 = le_nat (take 8 (drop 8 (slot_hash rd)))
            \<and> unat r3 = le_nat (take 8 (drop 16 (slot_hash rd)))
            \<and> unat r4 = le_nat (take 8 (drop 24 (slot_hash rd)))
            \<and> calculateRng (slot_hash rd) = Inr (r1 XOR r2 XOR r3 XOR r4)
            \<and> getWinningSquare (r1 XOR r2 XOR r3 XOR r4) = unat (r1 XOR r2 XOR r3 XOR r4) mod 25
            \<and> (\<not> winnerAnnounced s \<longrightarrow>
                 displayWinner s rd rid =
                   Inr (s\<lparr>lastWinner := Some (unat (r1 XOR r2 XOR r3 XOR r4) mod 25 + 1),
                          winnerAnnounced := True\<rparr>,
                        [PlayNotificationSound rid (unat (r1 XOR r2 XOR r3 XOR r4) mod 25 + 1)]))
            \<and> (winnerAnnounced s \<longrightarrow> displayWinner s rd rid = Inr (s, []))
            \<and> 1 \<le> unat (r1 XOR r2 XOR r3 XOR r4) mod 25 + 1
            \<and> unat (r1 XOR r2 XOR r3 XOR r4) mod 25 + 1 \<le> 25)
         \<and> \<not> isSlotHashPopulated (replicate n 0)"
proof -
  let ?h = "slot_hash rd"
  from assms read_ok[of 0 ?h] obtain r1 where
    r1: "readBigUInt64LE ?h 0 = Inr r1" "unat r1 = le_nat (take 8 ?h)" by auto
  from assms read_ok[of 8 ?h] obtain r2 where
    r2: "readBigUInt64LE ?h 8 = Inr r2" "unat r2 = le_nat (take 8 (drop 8 ?h))" by auto
  from assms read_ok[of 16 ?h] obtain r3 where
    r3: "readBigUInt64LE ?h 16 = Inr r3" "unat r3 = le_nat (take 8 (drop 16 ?h))" by auto
  from assms read_ok[of 24 ?h] obtain r4 where
    r4: "readBigUInt64LE ?h 24 = Inr r4" "unat r4 = le_nat (take 8 (drop 24 ?h))" by auto
  define rng where "rng = r1 XOR r2 XOR r3 XOR r4"
  have rng: "calculateRng ?h = Inr rng"
    by (simp add: calculateRng_def r1 r2 r3 r4 rng_def)
  have sq: "getWinningSquare rng = unat rng mod 25" by (simp add: getWinningSquare_def)
  have fresh: "\<not> winnerAnnounced s \<longrightarrow>
      displayWinner s rd rid =
        Inr (s\<lparr>lastWinner := Some (unat rng mod 25 + 1), winnerAnnounced := True\<rparr>,
             [PlayNotificationSound rid (unat rng mod 25 + 1)])"
    by (simp add: displayWinner_def rng sq Let_def)
  have again: "winnerAnnounced s \<longrightarrow> displayWinner s rd rid = Inr (s, [])"
    by (simp add: displayWinner_def)
  have "unat rng mod 25 < 25" by simp
  then have range: "1 \<le> unat rng mod 25 + 1" "unat rng mod 25 + 1 \<le> 25" by linarith+
  from r1(2) r2(2) r3(2) r4(2) rng sq fresh again range
  have "\<exists>r1 r2 r3 r4.
            unat r1 = le_nat (take 8 ?h)
            \<and> unat r2 = le_nat (take 8 (drop 8 ?h))
            \<and> unat r3 = le_nat (take 8 (drop 16 ?h))
            \<and> unat r4 = le_nat (take 8 (drop 24 ?h))
            \<and> calculateRng ?h = Inr (r1 XOR r2 XOR r3 XOR r4)
            \<and> getWinningSquare (r1 XOR r2 XOR r3 XOR r4) = unat (r1 XOR r2 XOR r3 XOR r4) mod 25
            \<and> (\<not> winnerAnnounced s \<longrightarrow>
                 displayWinner s rd rid =
                   Inr (s\<lparr>lastWinner := Some (unat (r1 XOR r2 XOR r3 XOR r4) mod 25 + 1),
                          winnerAnnounced := True\<rparr>,
                        [PlayNotificationSound rid (unat (r1 XOR r2 XOR r3 XOR r4) mod 25 + 1)]))
            \<and> (winnerAnnounced s \<longrightarrow> displayWinner s rd rid = Inr (s, []))
            \<and> 1 \<le> unat (r1 XOR r2 XOR r3 XOR r4) mod 25 + 1
            \<and> unat (r1 XOR r2 XOR r3 XOR r4) mod 25 + 1 \<le> 25"
    unfolding rng_def by (intro exI[of _ r1] exI[of _ r2] exI[of _ r3] exI[of _ r4] conjI)
  from this zero_block_not_populated[of n] show ?thesis by (rule conjI)
qed

lemma le_nat_zeros: "le_nat (replicate n 0) = 0"
  by (induction n) simp_all

text \<open>The derivation on the example block: the value 26 gives square 2.\<close>

lemma c6_example:
  "calculateRng c6_hash = Inr 26 \<and> getWinningSquare 26 + 1 = 2 \<and> isSlotHashPopulated c6_hash"
proof -
  have z: "le_nat (replicate 8 0) = 0" by (rule le_nat_zeros)
  have r: "replicate 24 (0::8 word) = replicate 8 0 @ replicate 8 0 @ replicate 8 0"
    by (simp flip: replicate_add)
  show ?thesis
    by (simp add: calculateRng_def readBigUInt64LE_def c6_hash_def getWinningSquare_def
      isSlotHashPopulated_def r z)
qed

lemma c6_display:
  "displayWinner initial_state c6_round 41 =
     Inr (initial_state\<lparr>lastWinner := Some 2, winnerAnnounced := True\<rparr>,
          [PlayNotificationSound 41 2])"
  using c6_example
  by (simp add: displayWinner_def c6_round_def initial_state_def Let_def)

theorem C6_outcome_derivation_witness:
  "length (slot_hash c6_round) = 32 \<and> \<not> winnerAnnounced initial_state
   \<and> calculateRng (slot_hash c6_round) = Inr 26
   \<and> displayWinner initial_state c6_round 41 =
       Inr (initial_state\<lparr>lastWinner := Some 2, winnerAnnounced := True\<rparr>,
            [PlayNotificationSound 41 2])
   \<and> (\<exists>r1 r2 r3 r4.
        unat r1 = le_nat (take 8 (slot_hash c6_round))
        \<and> unat r2 = le_nat (take 8 (drop 8 (slot_hash c6_round)))
        \<and> unat r3 = le_nat (take 8 (drop 16 (slot_hash c6_round)))
        \<and> unat r4 = le_nat (take 8 (drop 24 (slot_hash c6_round)))
        \<and> calculateRng (slot_hash c6_round) = Inr (r1 XOR r2 XOR r3 XOR r4)
        \<and> displayWinner initial_state c6_round 41 =
            Inr (initial_state\<lparr>lastWinner := Some (unat (r1 XOR r2 XOR r3 XOR r4) mod 25 + 1),
                   winnerAnnounced := True\<rparr>,
                 [PlayNotificationSound 41 (unat (r1 XOR r2 XOR r3 XOR r4) mod 25 + 1)]))
   \<and> \<not> isSlotHashPopulated (replicate 32 0)"
proof -
  have h: "length (slot_hash c6_round) = 32" by (simp add: c6_round_def c6_hash_def)
  have f: "\<not> winnerAnnounced initial_state" by (simp add: initial_state_def)
  have r: "calculateRng (slot_hash c6_round) = Inr 26"
    using c6_example by (simp add: c6_round_def)
  from C6_outcome_derivation[OF h, of initial_state 41 32] f
  have "(\<exists>r1 r2 r3 r4.
        unat r1 = le_nat (take 8 (slot_hash c6_round))
        \<and> unat r2 = le_nat (take 8 (drop 8 (slot_hash c6_round)))
        \<and> unat r3 = le_nat (take 8 (drop 16 (slot_hash c6_round)))
        \<and> unat r4 = le_nat (take 8 (drop 24 (slot_hash c6_round)))
        \<and> calculateRng (slot_hash c6_round) = Inr (r1 XOR r2 XOR r3 XOR r4)
        \<and> displayWinner initial_state c6_round 41 =
            Inr (initial_state\<lparr>lastWinner := Some (unat (r1 XOR r2 XOR r3 XOR r4) mod 25 + 1),
                   winnerAnnounced := True\<rparr>,
                 [PlayNotificationSound 41 (unat (r1 XOR r2 XOR r3 XOR r4) mod 25 + 1)]))
     \<and> \<not> isSlotHashPopulated (replicate 32 0)"
    by blast
  with h f r c6_display show ?thesis by blast
qed

section \<open>The first board notification\<close>

lemma processRoundUpdate_plain:
  "processRoundUpdate s p = (s', es) \<Longrightarrow>
   filter is_finalize es = [] \<and> currentRoundId s' = currentRoundId s
   \<and> automationHasRunThisRound s' = automationHasRunThisRound s
   \<and> checkpointHasRunThisRound s' = checkpointHasRunThisRound s
   \<and> winnerAnnounced s' = winnerAnnounced s
   \<and> currentBoardData s' = currentBoardData s
   \<and> isTransitioningRound s' = isTransitioningRound s
   \<and> lastWinner s' = lastWinner s"
  by (auto simp: processRoundUpdate_def split: option.splits)

text \<open>
  Claim C10.  On a decoded board notification received while the tracked round id is
  still \<open>-1\<close>, \<open>processBoardUpdate\<close> does not call \<open>finalizeOldRound\<close> (whose first act is
  the line \<open>fetching final data for old round\<close>); it resets the round flags and tracks the
  notified round, whatever the network answers afterwards.
\<close>

theorem C10_first_notification_skips_finalization:
  assumes "currentRoundId s = - 1"
  shows "filter is_finalize (snd (processBoardUpdate s (Some b) env)) = []
         \<and> currentRoundId (fst (processBoardUpdate s (Some b) env)) = uint (round_id b)
         \<and> \<not> automationHasRunThisRound (fst (processBoardUpdate s (Some b) env))
         \<and> \<not> checkpointHasRunThisRound (fst (processBoardUpdate s (Some b) env))
         \<and> \<not> winnerAnnounced (fst (processBoardUpdate s (Some b) env))
         \<and> lastWinner (fst (processBoardUpdate s (Some b) env)) = lastWinner s
         \<and> currentBoardData (fst (processBoardUpdate s (Some b) env)) = Some b"
proof -
  have nn: "0 \<le> uint (round_id b)" by simp
  then have a: "\<not> (uint (round_id b) = - 1)" by linarith
  obtain s' es where pr: "processRoundUpdate
      ((resetRoundFlags (s\<lparr>currentBoardData := Some b\<rparr>))
         \<lparr>currentRoundId := uint (round_id b), currentRoundData := None, winnerAnnounced := False,
          roundSubscriptionId := Some (newSubscriptionId env)\<rparr>)
      (case roundFetch env of Account p \<Rightarrow> p | _ \<Rightarrow> None) = (s', es)"
    by (rule prod.exhaust)
  note pl = processRoundUpdate_plain[OF pr]
  show ?thesis
    using a assms pl pr
    by (cases "roundFetch env"; cases "roundSubscriptionId s")
       (auto simp: processBoardUpdate_def Let_def resetRoundFlags_def split: prod.splits)
qed

theorem C10_first_notification_skips_finalization_witness:
  "currentRoundId initial_state = - 1
   \<and> processBoardUpdate initial_state (Some c10_board) c10_env =
       (initial_state\<lparr>currentBoardData := Some c10_board, currentRoundId := 42,
          roundSubscriptionId := Some 1, currentRoundData := Some c7_round\<rparr>,
        [Log (MsgCurrentRound 42), OnAccountChange 42, UpdateTUI c7_round])
   \<and> filter is_finalize (snd (processBoardUpdate initial_state (Some c10_board) c10_env)) = []
   \<and> currentRoundId (fst (processBoardUpdate initial_state (Some c10_board) c10_env)) = 42"
proof -
  have h: "currentRoundId initial_state = - 1" by (simp add: initial_state_def)
  have run: "processBoardUpdate initial_state (Some c10_board) c10_env =
       (initial_state\<lparr>currentBoardData := Some c10_board, currentRoundId := 42,
          roundSubscriptionId := Some 1, currentRoundData := Some c7_round\<rparr>,
        [Log (MsgCurrentRound 42), OnAccountChange 42, UpdateTUI c7_round])"
    by (simp add: processBoardUpdate_def Let_def initial_state_def c10_board_def c10_env_def
        resetRoundFlags_def processRoundUpdate_def)
  from C10_first_notification_skips_finalization[OF h, of c10_board c10_env] h run
  show ?thesis by (simp add: c10_board_def)
qed

end
